theory Spec2Isabelle
  imports Main "HOL-Library.Word"
begin

section \<open>XML elements as the parser sees them\<close>

text \<open>
  \<^verbatim>\<open>parse.py\<close> reads its three documents through \<^verbatim>\<open>xml.etree.ElementTree\<close>. An
  element has a tag (a namespaced tag is the one string \<^verbatim>\<open>{uri}local\<close>), its
  \<^verbatim>\<open>.text\<close> (the selector \<open>etext\<close>, since \<open>text\<close> is a keyword of the
  theory language), which is \<^verbatim>\<open>None\<close> when the element has no character data, and
  its child elements in document order. Attributes and tails are never read by the program.
\<close>

datatype element = Element (tag: string) (etext: "string option") (children: "element list")

text \<open>
  The paths the program uses are built from three kinds of step: a child with a given
  tag (\<^verbatim>\<open>name\<close>, \<^verbatim>\<open>./name\<close>), any child (\<^verbatim>\<open>*\<close>) and a descendant with a
  given tag (\<^verbatim>\<open>.//name\<close>).
\<close>

datatype step = Child string | AnyChild | Descendant string

text \<open>\<^verbatim>\<open>Element.iter()\<close>: the element and everything below it, in document order.\<close>

fun iter :: "element \<Rightarrow> element list" where
  "iter (Element t x cs) = Element t x cs # concat (map iter cs)"

text \<open>One step of a path from one context element; a descendant step leaves the
  context element itself out.\<close>

fun select :: "step \<Rightarrow> element \<Rightarrow> element list" where
  "select (Child t) e = filter (\<lambda>c. tag c = t) (children e)"
| "select AnyChild e = children e"
| "select (Descendant t) e = filter (\<lambda>d. tag d = t) (concat (map iter (children e)))"

text \<open>\<^verbatim>\<open>Element.findall(path)\<close>: every step is applied to each result of the step before,
  results in document order.\<close>

fun findall :: "step list \<Rightarrow> element \<Rightarrow> element list" where
  "findall [] e = [e]"
| "findall (s # p) e = concat (map (findall p) (select s e))"

text \<open>\<^verbatim>\<open>Element.find(path)\<close>: the first match, or \<^verbatim>\<open>None\<close>.\<close>

definition find_elt :: "step list \<Rightarrow> element \<Rightarrow> element option" where
  "find_elt p e = (case findall p e of [] \<Rightarrow> None | x # _ \<Rightarrow> Some x)"

text \<open>\<^verbatim>\<open>Element.findtext(path)\<close>: \<^verbatim>\<open>None\<close> when nothing matches, and the empty string
  when the first match has no text.\<close>

definition findtext :: "step list \<Rightarrow> element \<Rightarrow> string option" where
  "findtext p e =
     (case find_elt p e of
        None \<Rightarrow> None
      | Some x \<Rightarrow> Some (case etext x of None \<Rightarrow> [] | Some s \<Rightarrow> s))"

section \<open>Exceptions\<close>

text \<open>
  Every place where the Python raises is a branch that returns \<open>Inl\<close>:
  \<^verbatim>\<open>.text\<close> of a \<^verbatim>\<open>find\<close> that matched nothing (AttributeError), iterating over
  \<^verbatim>\<open>None\<close> and \<^verbatim>\<open>int(None)\<close> (TypeError), \<^verbatim>\<open>int\<close> of text that is not a
  number (ValueError), a dictionary lookup of a missing key (KeyError).
\<close>

datatype error = AttributeError | TypeError | ValueError | KeyError "string option"

text \<open>\<^verbatim>\<open>elt.find(path).text\<close>\<close>

definition find_dot_text :: "step list \<Rightarrow> element \<Rightarrow> error + string option" where
  "find_dot_text p e =
     (case find_elt p e of None \<Rightarrow> Inl AttributeError | Some x \<Rightarrow> Inr (etext x))"

text \<open>A list comprehension whose body may raise: the first exception ends it.\<close>

fun comprehension :: "('a \<Rightarrow> error + 'b) \<Rightarrow> 'a list \<Rightarrow> error + 'b list" where
  "comprehension f [] = Inr []"
| "comprehension f (x # xs) =
     (case f x of
        Inl e \<Rightarrow> Inl e
      | Inr y \<Rightarrow> (case comprehension f xs of Inl e \<Rightarrow> Inl e | Inr ys \<Rightarrow> Inr (y # ys)))"

section \<open>The built-in \<^verbatim>\<open>int\<close>\<close>

text \<open>
  \<^verbatim>\<open>int(s)\<close> on a string, base ten, as in the Python 2 the program was written for:
  surrounding whitespace is ignored, one sign is allowed, and at least one decimal digit
  must follow. \<^verbatim>\<open>int(None)\<close> raises TypeError, any other text ValueError.
\<close>

definition is_space :: "char \<Rightarrow> bool" where
  "is_space c = (c \<in> set [CHR '' '', CHR 0x09, CHR 0x0A, CHR 0x0B, CHR 0x0C, CHR 0x0D])"

definition is_digit :: "char \<Rightarrow> bool" where
  "is_digit c = (48 \<le> (of_char c :: nat) \<and> (of_char c :: nat) \<le> 57)"

definition strip :: "string \<Rightarrow> string" where
  "strip s = rev (dropWhile is_space (rev (dropWhile is_space s)))"

definition digits_value :: "string \<Rightarrow> nat" where
  "digits_value ds = foldl (\<lambda>a c. 10 * a + (of_char c - 48)) 0 ds"

definition unsigned_int :: "string \<Rightarrow> error + int" where
  "unsigned_int ds =
     (if ds \<noteq> [] \<and> list_all is_digit ds then Inr (int (digits_value ds)) else Inl ValueError)"

definition py_int :: "string option \<Rightarrow> error + int" where
  "py_int t =
     (case t of
        None \<Rightarrow> Inl TypeError
      | Some s \<Rightarrow>
          (case strip s of
             [] \<Rightarrow> Inl ValueError
           | c # ds \<Rightarrow>
               if c = CHR ''-'' then
                 (case unsigned_int ds of Inl e \<Rightarrow> Inl e | Inr n \<Rightarrow> Inr (- n))
               else if c = CHR ''+'' then unsigned_int ds
               else unsigned_int (c # ds)))"

section \<open>IP networks and IP sets\<close>

text \<open>
  Modelled from the spec: the module \<^verbatim>\<open>fwunit.ip\<close> (classes \<^verbatim>\<open>IP\<close> and \<^verbatim>\<open>IPSet\<close>)
  is imported by \<^verbatim>\<open>parse.py\<close> and is not part of the sources. The spec describes it as
  "an IP-set value type supporting construction from a CIDR string, union (addition), and
  equality", an IP set being "a union of CIDR ranges". An \<open>ip\<close> is one IPv4 network,
  base address and prefix length; an \<open>ipset\<close> is the set of addresses it covers, so that
  equality of IP sets is equality by value.
\<close>

type_synonym ipv4 = "32 word"

datatype ip = IPNet (base: ipv4) (prefixlen: nat)

type_synonym ipset = "ipv4 set"

text \<open>Modelled from the spec: the addresses of one "CIDR range" of \<^verbatim>\<open>fwunit.ip\<close>, those
  that agree with the base address on the first \<open>prefixlen\<close> bits.\<close>

definition ip_addrs :: "ip \<Rightarrow> ipset" where
  "ip_addrs i =
     {a. drop_bit (32 - prefixlen i) a = drop_bit (32 - prefixlen i) (base i)}"

text \<open>Modelled from the spec: \<^verbatim>\<open>IPSet(list of IP)\<close>, the union of the networks listed;
  \<^verbatim>\<open>IPSet()\<close> is \<open>IPSet []\<close>.\<close>

definition IPSet :: "ip list \<Rightarrow> ipset" where
  "IPSet ips = \<Union> (ip_addrs ` set ips)"

text \<open>Modelled from the spec: \<^verbatim>\<open>a += b\<close> on IP sets, "union (addition)".\<close>

definition ipset_add :: "ipset \<Rightarrow> ipset \<Rightarrow> ipset" where
  "ipset_add a b = a \<union> b"

text \<open>
  The constructor \<^verbatim>\<open>IP(text)\<close> is a parameter \<open>IP\<close> of every function below that
  calls it: it takes the text (\<^verbatim>\<open>None\<close> when \<^verbatim>\<open>findtext\<close> found nothing) and
  returns the network or raises. \<open>split_on\<close> and \<open>decimal\<close> read the fields of a
  dotted quad for the instance \<open>IP_cidr\<close> below.
\<close>

fun split_on :: "char \<Rightarrow> string \<Rightarrow> string list" where
  "split_on c [] = [[]]"
| "split_on c (x # xs) =
     (if x = c then [] # split_on c xs
      else (case split_on c xs of [] \<Rightarrow> [[x]] | w # ws \<Rightarrow> (x # w) # ws))"

definition decimal :: "string \<Rightarrow> nat option" where
  "decimal ds = (if ds \<noteq> [] \<and> list_all is_digit ds then Some (digits_value ds) else None)"

text \<open>Modelled from the spec: \<open>IP_cidr\<close> is the constructor \<^verbatim>\<open>IP\<close> of \<^verbatim>\<open>fwunit.ip\<close> on
  "CIDR prefix text" of the form \<^verbatim>\<open>a.b.c.d/n\<close>, the instance at which the theorems are
  evaluated. Any other input raises ValueError here, and no text at all raises TypeError.\<close>

definition IP_cidr :: "string option \<Rightarrow> error + ip" where
  "IP_cidr t =
     (case t of
        None \<Rightarrow> Inl TypeError
      | Some s \<Rightarrow>
          (case split_on CHR ''/'' s of
             [a, l] \<Rightarrow>
               (case (map decimal (split_on CHR ''.'' a), decimal l) of
                  ([Some o1, Some o2, Some o3, Some o4], Some n) \<Rightarrow>
                    if o1 < 256 \<and> o2 < 256 \<and> o3 < 256 \<and> o4 < 256 \<and> n \<le> 32 then
                      (let b = (word_of_nat (((o1 * 256 + o2) * 256 + o3) * 256 + o4) :: ipv4)
                       in if take_bit (32 - n) b = 0 then Inr (IPNet b n) else Inl ValueError)
                    else Inl ValueError
                | _ \<Rightarrow> Inl ValueError)
           | _ \<Rightarrow> Inl ValueError))"

section \<open>Policies\<close>

text \<open>
  A \<^verbatim>\<open>Policy\<close> as \<^verbatim>\<open>Policy._from_xml\<close> returns it. A name, a zone name, an address
  name, an application name or an action is the \<^verbatim>\<open>.text\<close> of an element, which is
  \<^verbatim>\<open>None\<close> for an element without character data.
\<close>

record policy =
  name :: "string option"
  from_zone :: "string option"
  to_zone :: "string option"
  enabled :: bool
  sequence :: int
  source_addresses :: "string option list"
  destination_addresses :: "string option list"
  applications :: "string option list"
  action :: "string option"

text \<open>\<^verbatim>\<open>Policy._parse_address\<close> and \<^verbatim>\<open>Policy._parse_application\<close>\<close>

definition parse_address :: "element \<Rightarrow> error + string option" where
  "parse_address elt = find_dot_text [Child ''address-name''] elt"

definition parse_application :: "element \<Rightarrow> error + string option" where
  "parse_application elt = find_dot_text [Child ''application-name''] elt"

text \<open>\<^verbatim>\<open>Policy._from_xml\<close>: the fields are read in the order of the source, and the first
  exception ends the call.\<close>

definition policy_from_xml ::
  "string option \<Rightarrow> string option \<Rightarrow> element \<Rightarrow> error + policy" where
  "policy_from_xml fz tz pie =
     (case find_dot_text [Child ''policy-name''] pie of Inl e \<Rightarrow> Inl e | Inr nm \<Rightarrow>
     (case find_dot_text [Child ''policy-state''] pie of Inl e \<Rightarrow> Inl e | Inr st \<Rightarrow>
     (case find_dot_text [Child ''policy-sequence-number''] pie of Inl e \<Rightarrow> Inl e | Inr sq \<Rightarrow>
     (case py_int sq of Inl e \<Rightarrow> Inl e | Inr n \<Rightarrow>
     (case comprehension parse_address
             (findall [Child ''source-addresses'', AnyChild] pie) of Inl e \<Rightarrow> Inl e | Inr srcs \<Rightarrow>
     (case comprehension parse_address
             (findall [Child ''destination-addresses'', AnyChild] pie) of Inl e \<Rightarrow> Inl e | Inr dsts \<Rightarrow>
     (case comprehension parse_application
             (findall [Child ''applications'', Child ''application''] pie) of Inl e \<Rightarrow> Inl e | Inr apps \<Rightarrow>
     (case find_dot_text [Child ''policy-action'', Child ''action-type''] pie of Inl e \<Rightarrow> Inl e | Inr act \<Rightarrow>
        Inr \<lparr>name = nm, from_zone = fz, to_zone = tz, enabled = (st = Some ''enabled''),
             sequence = n, source_addresses = srcs, destination_addresses = dsts,
             applications = apps, action = act\<rparr>))))))))"

text \<open>
  \<^verbatim>\<open>Firewall._parse_policies\<close>, from the root element that \<^verbatim>\<open>ET.parse\<close> returned. The
  inner loop appends to the list \<^verbatim>\<open>policies\<close> that the outer loop carries along.
\<close>

fun policy_information_loop ::
  "string option \<Rightarrow> string option \<Rightarrow> element list \<Rightarrow> policy list \<Rightarrow> error + policy list" where
  "policy_information_loop fz tz [] policies = Inr policies"
| "policy_information_loop fz tz (pol_elt # rest) policies =
     (case policy_from_xml fz tz pol_elt of
        Inl e \<Rightarrow> Inl e
      | Inr pol \<Rightarrow> policy_information_loop fz tz rest (policies @ [pol]))"

fun security_context_loop :: "element list \<Rightarrow> policy list \<Rightarrow> error + policy list" where
  "security_context_loop [] policies = Inr policies"
| "security_context_loop (elt # rest) policies =
     (case find_dot_text [Child ''context-information'', Child ''source-zone-name''] elt of
        Inl e \<Rightarrow> Inl e
      | Inr fz \<Rightarrow>
     (case find_dot_text [Child ''context-information'', Child ''destination-zone-name''] elt of
        Inl e \<Rightarrow> Inl e
      | Inr tz \<Rightarrow>
     (case policy_information_loop fz tz
             (findall [Child ''policies'', Child ''policy-information''] elt) policies of
        Inl e \<Rightarrow> Inl e
      | Inr policies' \<Rightarrow> security_context_loop rest policies')))"

definition parse_policies :: "element \<Rightarrow> error + policy list" where
  "parse_policies sspe = security_context_loop (findall [Descendant ''security-context''] sspe) []"

section \<open>Routes\<close>

text \<open>
  A \<^verbatim>\<open>Route\<close>: \<^verbatim>\<open>interface\<close> and \<^verbatim>\<open>is_local\<close> are \<^verbatim>\<open>None\<close> until an active entry
  sets them.
\<close>

record route =
  destination :: ip
  interface :: "string option"
  is_local :: "bool option"

definition ns :: string where
  "ns = ''{http://xml.juniper.net/junos/12.1X44/junos-routing}''"

text \<open>The loop of \<^verbatim>\<open>Route._from_xml\<close> over the \<^verbatim>\<open>rt-entry\<close> children.\<close>

fun rt_entry_loop :: "element list \<Rightarrow> route \<Rightarrow> route" where
  "rt_entry_loop [] route = route"
| "rt_entry_loop (entry # rest) route =
     rt_entry_loop rest
       (if findall [Descendant (ns @ ''current-active'')] entry \<noteq> [] then
          (let route1 = (case findall [Descendant (ns @ ''via'')] entry of
                           [] \<Rightarrow> route
                         | via0 # _ \<Rightarrow> route\<lparr>interface := etext via0\<rparr>)
           in route1\<lparr>is_local := Some (findall [Descendant (ns @ ''to'')] entry = [])\<rparr>)
        else route)"

text \<open>Python's truth value of \<^verbatim>\<open>route.interface\<close>: \<^verbatim>\<open>None\<close> and the empty string are
  false.\<close>

definition truthy :: "string option \<Rightarrow> bool" where
  "truthy t = (case t of None \<Rightarrow> False | Some s \<Rightarrow> s \<noteq> [])"

text \<open>\<^verbatim>\<open>Route._from_xml\<close>: a route, or \<^verbatim>\<open>None\<close> when no interface was found.\<close>

definition route_from_xml ::
  "(string option \<Rightarrow> error + ip) \<Rightarrow> element \<Rightarrow> error + route option" where
  "route_from_xml IP rt_elt =
     (case find_dot_text [Child (ns @ ''rt-destination'')] rt_elt of
        Inl e \<Rightarrow> Inl e
      | Inr t \<Rightarrow>
     (case IP t of
        Inl e \<Rightarrow> Inl e
      | Inr dest \<Rightarrow>
          (let route = rt_entry_loop (findall [Child (ns @ ''rt-entry'')] rt_elt)
                         \<lparr>destination = dest, interface = None, is_local = None\<rparr>
           in if truthy (interface route) then Inr (Some route) else Inr None)))"

text \<open>\<^verbatim>\<open>Firewall._parse_routes\<close>: the loop over the \<^verbatim>\<open>rt\<close> children of the table chosen,
  and the loop over the tables, which returns from inside its first match.\<close>

fun rt_loop ::
  "(string option \<Rightarrow> error + ip) \<Rightarrow> element list \<Rightarrow> route list \<Rightarrow> error + route list" where
  "rt_loop IP [] routes = Inr routes"
| "rt_loop IP (rt_elt # rest) routes =
     (case route_from_xml IP rt_elt of
        Inl e \<Rightarrow> Inl e
      | Inr None \<Rightarrow> rt_loop IP rest routes
      | Inr (Some route) \<Rightarrow> rt_loop IP rest (routes @ [route]))"

fun route_table_loop ::
  "(string option \<Rightarrow> error + ip) \<Rightarrow> element list \<Rightarrow> error + route list" where
  "route_table_loop IP [] = Inr []"
| "route_table_loop IP (table # rest) =
     (if findtext [Child (ns @ ''table-name'')] table = Some ''inet.0'' then
        rt_loop IP (findall [Child (ns @ ''rt'')] table) []
      else route_table_loop IP rest)"

definition parse_routes :: "(string option \<Rightarrow> error + ip) \<Rightarrow> element \<Rightarrow> error + route list" where
  "parse_routes IP sre = route_table_loop IP (findall [Descendant (ns @ ''route-table'')] sre)"

section \<open>Zones\<close>

text \<open>
  A \<^verbatim>\<open>Zone\<close>. The keys of \<^verbatim>\<open>addresses\<close> are results of \<^verbatim>\<open>findtext\<close>, so
  \<^verbatim>\<open>None\<close> is a possible key (an entry without a \<^verbatim>\<open>name\<close> child).
\<close>

record zone =
  zname :: "string option"
  interfaces :: "string option list"
  addresses :: "string option \<rightharpoonup> ipset"

text \<open>\<^verbatim>\<open>Zone.__init__\<close>; the attribute \<^verbatim>\<open>name\<close> does not exist yet, and is assigned
  before anything reads it.\<close>

definition Zone_init :: "(string option \<Rightarrow> error + ip) \<Rightarrow> error + zone" where
  "Zone_init IP =
     (case IP (Some ''0.0.0.0/0'') of
        Inl e \<Rightarrow> Inl e
      | Inr i \<Rightarrow> Inr \<lparr>zname = None, interfaces = [],
                      addresses = [Some ''any'' \<mapsto> IPSet [i]]\<rparr>)"

text \<open>The inner loop of the address book, over the members of an address-set.\<close>

fun set_member_loop ::
  "(string option \<rightharpoonup> ipset) \<Rightarrow> element list \<Rightarrow> ipset \<Rightarrow> error + ipset" where
  "set_member_loop addrs [] ip = Inr ip"
| "set_member_loop addrs (setaddr # rest) ip =
     (let setname = findtext [Child ''name''] setaddr
      in case addrs setname of
           None \<Rightarrow> Inl (KeyError setname)
         | Some s \<Rightarrow> set_member_loop addrs rest (ipset_add ip s))"

text \<open>What one child of \<^verbatim>\<open>address-book\<close> resolves to, given the mapping so far.\<close>

definition resolve_entry ::
  "(string option \<Rightarrow> error + ip) \<Rightarrow> (string option \<rightharpoonup> ipset) \<Rightarrow> element \<Rightarrow> error + ipset" where
  "resolve_entry IP addrs addr =
     (if tag addr = ''address'' then
        (case IP (findtext [Child ''ip-prefix''] addr) of
           Inl e \<Rightarrow> Inl e
         | Inr i \<Rightarrow> Inr (IPSet [i]))
      else set_member_loop addrs (findall [Child ''address''] addr) (IPSet []))"

text \<open>The loop over the children of \<^verbatim>\<open>address-book\<close>.\<close>

fun address_book_loop ::
  "(string option \<Rightarrow> error + ip) \<Rightarrow> element list \<Rightarrow> zone \<Rightarrow> error + zone" where
  "address_book_loop IP [] zone = Inr zone"
| "address_book_loop IP (addr # rest) zone =
     (let name = findtext [Child ''name''] addr
      in case resolve_entry IP (addresses zone) addr of
           Inl e \<Rightarrow> Inl e
         | Inr ip \<Rightarrow>
             address_book_loop IP rest (zone\<lparr>addresses := (addresses zone)(name \<mapsto> ip)\<rparr>))"

text \<open>\<^verbatim>\<open>Zone._from_xml\<close>. Iterating over the result of \<^verbatim>\<open>find('address-book')\<close>
  raises TypeError when there is no such child.\<close>

definition zone_from_xml :: "(string option \<Rightarrow> error + ip) \<Rightarrow> element \<Rightarrow> error + zone" where
  "zone_from_xml IP sze =
     (case Zone_init IP of
        Inl e \<Rightarrow> Inl e
      | Inr zone \<Rightarrow>
     (case find_dot_text [Child ''name''] sze of
        Inl e \<Rightarrow> Inl e
      | Inr nm \<Rightarrow>
          (let zone1 = zone\<lparr>zname := nm\<rparr>;
               zone2 = zone1\<lparr>interfaces := interfaces zone1 @
                         map etext (findall [Descendant ''interfaces'', Child ''name''] sze)\<rparr>
           in case find_elt [Child ''address-book''] sze of
                None \<Rightarrow> Inl TypeError
              | Some book \<Rightarrow> address_book_loop IP (children book) zone2)))"

text \<open>\<^verbatim>\<open>Firewall._parse_zones\<close>\<close>

fun security_zone_loop ::
  "(string option \<Rightarrow> error + ip) \<Rightarrow> element list \<Rightarrow> zone list \<Rightarrow> error + zone list" where
  "security_zone_loop IP [] zones = Inr zones"
| "security_zone_loop IP (sz # rest) zones =
     (case zone_from_xml IP sz of
        Inl e \<Rightarrow> Inl e
      | Inr z \<Rightarrow> security_zone_loop IP rest (zones @ [z]))"

definition parse_zones :: "(string option \<Rightarrow> error + ip) \<Rightarrow> element \<Rightarrow> error + zone list" where
  "parse_zones IP scsze = security_zone_loop IP (findall [Descendant ''security-zone''] scsze) []"

section \<open>Vocabulary of the properties\<close>

subsection \<open>Policies\<close>

text \<open>The policies of one \<^verbatim>\<open>security-context\<close> block: what one turn of the outer loop
  of \<^verbatim>\<open>_parse_policies\<close> appends.\<close>

definition context_policies :: "element \<Rightarrow> error + policy list" where
  "context_policies elt =
     (case find_dot_text [Child ''context-information'', Child ''source-zone-name''] elt of
        Inl e \<Rightarrow> Inl e
      | Inr fz \<Rightarrow>
     (case find_dot_text [Child ''context-information'', Child ''destination-zone-name''] elt of
        Inl e \<Rightarrow> Inl e
      | Inr tz \<Rightarrow>
          comprehension (policy_from_xml fz tz)
            (findall [Child ''policies'', Child ''policy-information''] elt)))"

text \<open>The policy entries of a document in its traversal order, each with the context
  block it stands in.\<close>

definition policy_entries :: "element \<Rightarrow> (element \<times> element) list" where
  "policy_entries sspe =
     concat (map (\<lambda>ctx. map (\<lambda>pie. (ctx, pie))
                          (findall [Child ''policies'', Child ''policy-information''] ctx))
                 (findall [Descendant ''security-context''] sspe))"

text \<open>The zone pair and the sequence number as the document writes them for one entry
  (\<open>None\<close> when one of the three cannot be read), and as a \<^verbatim>\<open>Policy\<close> holds them.\<close>

definition entry_key :: "element \<times> element \<Rightarrow> (string option \<times> string option \<times> int) option" where
  "entry_key cp =
     (case find_dot_text [Child ''context-information'', Child ''source-zone-name''] (fst cp) of
        Inl e \<Rightarrow> None
      | Inr fz \<Rightarrow>
     (case find_dot_text [Child ''context-information'', Child ''destination-zone-name''] (fst cp) of
        Inl e \<Rightarrow> None
      | Inr tz \<Rightarrow>
     (case find_dot_text [Child ''policy-sequence-number''] (snd cp) of
        Inl e \<Rightarrow> None
      | Inr t \<Rightarrow>
     (case py_int t of Inl e \<Rightarrow> None | Inr n \<Rightarrow> Some (fz, tz, n)))))"

definition policy_key :: "policy \<Rightarrow> string option \<times> string option \<times> int" where
  "policy_key p = (from_zone p, to_zone p, sequence p)"

subsection \<open>Routes\<close>

text \<open>An \<^verbatim>\<open>rt-entry\<close> is active when a \<^verbatim>\<open>current-active\<close> element lies beneath it;
  its vias are the \<^verbatim>\<open>via\<close> elements beneath it, in document order; it has no next hop
  when no \<^verbatim>\<open>to\<close> element lies beneath it.\<close>

definition active :: "element \<Rightarrow> bool" where
  "active entry = (findall [Descendant (ns @ ''current-active'')] entry \<noteq> [])"

definition vias :: "element \<Rightarrow> element list" where
  "vias entry = findall [Descendant (ns @ ''via'')] entry"

definition no_to :: "element \<Rightarrow> bool" where
  "no_to entry = (findall [Descendant (ns @ ''to'')] entry = [])"

text \<open>One turn of the loop of \<^verbatim>\<open>Route._from_xml\<close>, in these words.\<close>

definition entry_step :: "element \<Rightarrow> route \<Rightarrow> route" where
  "entry_step e r =
     (if active e then
        (case vias e of [] \<Rightarrow> r | v # _ \<Rightarrow> r\<lparr>interface := etext v\<rparr>)\<lparr>is_local := Some (no_to e)\<rparr>
      else r)"

text \<open>A route table is the one asked for when \<^verbatim>\<open>findtext\<close> of its table name is
  \<^verbatim>\<open>inet.0\<close>.\<close>

definition is_inet0 :: "element \<Rightarrow> bool" where
  "is_inet0 table = (findtext [Child (ns @ ''table-name'')] table = Some ''inet.0'')"

subsection \<open>Zones\<close>

text \<open>The name under which an address-book entry is stored, the names an address-set
  refers to, and the entries of a zone's address book in document order (none when the
  zone has no \<^verbatim>\<open>address-book\<close> child).\<close>

definition entry_name :: "element \<Rightarrow> string option" where
  "entry_name addr = findtext [Child ''name''] addr"

definition member_names :: "element \<Rightarrow> string option list" where
  "member_names addr = map (findtext [Child ''name'']) (findall [Child ''address''] addr)"

definition book_entries :: "element \<Rightarrow> element list" where
  "book_entries sze =
     (case find_elt [Child ''address-book''] sze of None \<Rightarrow> [] | Some book \<Rightarrow> children book)"

text \<open>The \<^verbatim>\<open>addresses\<close> mapping at the moment the entries \<open>pre\<close> of an address book
  have been processed, starting from the mapping of \<^verbatim>\<open>Zone.__init__\<close>.\<close>

definition addresses_after ::
  "(string option \<Rightarrow> error + ip) \<Rightarrow> element list \<Rightarrow> error + (string option \<rightharpoonup> ipset)" where
  "addresses_after IP pre =
     (case Zone_init IP of
        Inl e \<Rightarrow> Inl e
      | Inr zone \<Rightarrow>
          (case address_book_loop IP pre zone of Inl e \<Rightarrow> Inl e | Inr z \<Rightarrow> Inr (addresses z)))"

section \<open>Example documents\<close>

subsection \<open>Policy documents\<close>

definition policy_information :: "string \<Rightarrow> string \<Rightarrow> string \<Rightarrow> string \<Rightarrow> element" where
  "policy_information nm st sq act =
     Element ''policy-information'' None
       [Element ''policy-name'' (Some nm) [],
        Element ''policy-state'' (Some st) [],
        Element ''policy-sequence-number'' (Some sq) [],
        Element ''source-addresses'' None
          [Element ''source-address'' None [Element ''address-name'' (Some ''any'') []]],
        Element ''destination-addresses'' None
          [Element ''destination-address'' None [Element ''address-name'' (Some ''web'') []]],
        Element ''applications'' None
          [Element ''application'' None [Element ''application-name'' (Some ''junos-http'') []]],
        Element ''policy-action'' None [Element ''action-type'' (Some act) []]]"

definition security_context :: "string \<Rightarrow> string \<Rightarrow> element list \<Rightarrow> element" where
  "security_context fz tz pies =
     Element ''security-context'' None
       [Element ''context-information'' None
          [Element ''source-zone-name'' (Some fz) [],
           Element ''destination-zone-name'' (Some tz) []],
        Element ''policies'' None pies]"

text \<open>Two context blocks; in the first, the entry with sequence number 2 stands before
  the entry with sequence number 1.\<close>

definition policies_doc :: element where
  "policies_doc =
     Element ''security-policies'' None
       [security_context ''trust'' ''untrust''
          [policy_information ''web'' ''enabled'' ''2'' ''permit'',
           policy_information ''block'' ''disabled'' ''1'' ''deny''],
        security_context ''untrust'' ''trust''
          [policy_information ''in'' ''enabled'' ''1'' ''deny'']]"

text \<open>Two entries of one zone pair with the same sequence number.\<close>

definition policies_same_sequence :: element where
  "policies_same_sequence =
     Element ''security-policies'' None
       [security_context ''trust'' ''untrust''
          [policy_information ''a'' ''enabled'' ''1'' ''permit'',
           policy_information ''b'' ''enabled'' ''1'' ''deny'']]"

text \<open>A second entry whose sequence number is not a number.\<close>

definition policies_bad_sequence :: element where
  "policies_bad_sequence =
     Element ''security-policies'' None
       [security_context ''trust'' ''untrust''
          [policy_information ''a'' ''enabled'' ''1'' ''permit'',
           policy_information ''b'' ''enabled'' ''one'' ''deny'']]"

subsection \<open>Routing documents\<close>

definition rt_entry_inactive :: element where
  "rt_entry_inactive =
     Element (ns @ ''rt-entry'') None
       [Element (ns @ ''protocol-name'') (Some ''Static'') [],
        Element (ns @ ''nh'') None
          [Element (ns @ ''to'') (Some ''10.9.9.9'') [],
           Element (ns @ ''via'') (Some ''ge-0/0/0'') []]]"

definition rt_entry_next_hop :: element where
  "rt_entry_next_hop =
     Element (ns @ ''rt-entry'') None
       [Element (ns @ ''current-active'') None [],
        Element (ns @ ''nh'') None
          [Element (ns @ ''to'') (Some ''10.1.1.254'') [],
           Element (ns @ ''via'') (Some ''ge-0/0/1'') []]]"

definition rt_entry_direct :: element where
  "rt_entry_direct =
     Element (ns @ ''rt-entry'') None
       [Element (ns @ ''current-active'') None [],
        Element (ns @ ''nh'') None [Element (ns @ ''via'') (Some ''ge-0/0/1'') []]]"

definition rt_entry_discard :: element where
  "rt_entry_discard =
     Element (ns @ ''rt-entry'') None
       [Element (ns @ ''current-active'') None [],
        Element (ns @ ''nh-type'') (Some ''Discard'') []]"

text \<open>A destination with two entries, only the second active, with a next hop address.\<close>

definition rt_next_hop :: element where
  "rt_next_hop =
     Element (ns @ ''rt'') None
       [Element (ns @ ''rt-destination'') (Some ''10.1.1.0/24'') [],
        rt_entry_inactive, rt_entry_next_hop]"

text \<open>The same destination, the active entry with a via and no next hop address.\<close>

definition rt_direct :: element where
  "rt_direct =
     Element (ns @ ''rt'') None
       [Element (ns @ ''rt-destination'') (Some ''10.1.1.0/24'') [],
        rt_entry_inactive, rt_entry_direct]"

text \<open>A destination whose active entry has no via.\<close>

definition rt_discard :: element where
  "rt_discard =
     Element (ns @ ''rt'') None
       [Element (ns @ ''rt-destination'') (Some ''10.2.0.0/16'') [], rt_entry_discard]"

definition route_table :: "string \<Rightarrow> element list \<Rightarrow> element" where
  "route_table nm rts =
     Element (ns @ ''route-table'') None (Element (ns @ ''table-name'') (Some nm) [] # rts)"

text \<open>Tables \<^verbatim>\<open>inet.6\<close>, \<^verbatim>\<open>inet.0\<close> and \<^verbatim>\<open>inet.0\<close> again, with differing entries.\<close>

definition routes_doc :: element where
  "routes_doc =
     Element ''rpc-reply'' None
       [Element (ns @ ''route-information'') None
          [route_table ''inet.6'' [rt_direct],
           route_table ''inet.0'' [rt_next_hop, rt_discard],
           route_table ''inet.0'' [rt_direct]]]"

definition routes_doc_no_inet0 :: element where
  "routes_doc_no_inet0 =
     Element ''rpc-reply'' None
       [Element (ns @ ''route-information'') None [route_table ''inet.6'' [rt_direct]]]"

subsection \<open>Zone documents\<close>

definition address :: "string \<Rightarrow> string \<Rightarrow> element" where
  "address nm prefix =
     Element ''address'' None
       [Element ''name'' (Some nm) [], Element ''ip-prefix'' (Some prefix) []]"

definition address_set :: "string \<Rightarrow> string list \<Rightarrow> element" where
  "address_set nm members =
     Element ''address-set'' None
       (Element ''name'' (Some nm) [] #
        map (\<lambda>m. Element ''address'' None [Element ''name'' (Some m) []]) members)"

definition security_zone :: "element list \<Rightarrow> element" where
  "security_zone book =
     Element ''security-zone'' None
       [Element ''name'' (Some ''trust'') [],
        Element ''interfaces'' None [Element ''name'' (Some ''ge-0/0/1.0'') []],
        Element ''address-book'' None book]"

text \<open>An address \<^verbatim>\<open>A\<close>, then a set \<^verbatim>\<open>S\<close> of \<^verbatim>\<open>A\<close> and \<^verbatim>\<open>any\<close>.\<close>

definition zone_A_S :: element where
  "zone_A_S = security_zone [address ''A'' ''10.0.0.0/24'', address_set ''S'' [''A'', ''any'']]"

text \<open>An address named \<^verbatim>\<open>any\<close>, then a set \<^verbatim>\<open>S\<close> of \<^verbatim>\<open>any\<close>.\<close>

definition zone_any_redefined :: element where
  "zone_any_redefined =
     security_zone [address ''any'' ''10.0.0.0/24'', address_set ''S'' [''any'']]"

text \<open>Two addresses of the same name.\<close>

definition zone_twice :: element where
  "zone_twice = security_zone [address ''A'' ''10.0.0.0/24'', address ''A'' ''10.1.1.0/24'']"

text \<open>A set that refers to an address defined after it.\<close>

definition zone_forward_reference :: element where
  "zone_forward_reference =
     security_zone [address_set ''S'' [''A''], address ''A'' ''10.0.0.0/24'']"

text \<open>An empty address book, and no address book at all.\<close>

definition zone_empty_book :: element where
  "zone_empty_book = security_zone []"

definition zone_no_book :: element where
  "zone_no_book = Element ''security-zone'' None [Element ''name'' (Some ''trust'') []]"

text \<open>A configuration document whose one zone is \<open>zone_forward_reference\<close>.\<close>

definition zones_doc_forward_reference :: element where
  "zones_doc_forward_reference =
     Element ''configuration'' None
       [Element ''security'' None [Element ''zones'' None [zone_forward_reference]]]"

subsection \<open>Expected results\<close>

text \<open>The \<^verbatim>\<open>Policy\<close> that an entry built by \<open>policy_information\<close> parses to.\<close>

definition example_policy ::
  "string \<Rightarrow> string \<Rightarrow> string \<Rightarrow> bool \<Rightarrow> int \<Rightarrow> string \<Rightarrow> policy" where
  "example_policy nm fz tz en sq act =
     \<lparr>name = Some nm, from_zone = Some fz, to_zone = Some tz, enabled = en, sequence = sq,
      source_addresses = [Some ''any''], destination_addresses = [Some ''web''],
      applications = [Some ''junos-http''], action = Some act\<rparr>"

section \<open>The path functions, the loops and the comprehension\<close>

text \<open>The three path functions are unfolded only when a concrete document is
  evaluated.\<close>

lemmas path_eval = iter.simps select.simps findall.simps

declare iter.simps [simp del] select.simps [simp del] findall.simps [simp del]

lemmas elt_eval = path_eval find_elt_def findtext_def find_dot_text_def

lemma comprehension_Inr_iff:
  "comprehension f xs = Inr ys \<longleftrightarrow> list_all2 (\<lambda>x y. f x = Inr y) xs ys"
proof (induction xs arbitrary: ys)
  case Nil
  then show ?case by auto
next
  case (Cons x xs)
  show ?case
  proof (cases "f x")
    case (Inl e)
    then show ?thesis by (auto simp: list_all2_Cons1)
  next
    case (Inr y)
    then show ?thesis
      using Cons.IH by (cases "comprehension f xs") (auto simp: list_all2_Cons1)
  qed
qed

lemma comprehension_isl_iff:
  "isl (comprehension f xs) \<longleftrightarrow> (\<exists>x \<in> set xs. isl (f x))"
  by (induction xs) (auto split: sum.splits simp: isl_def)

lemma list_all2_map_eq:
  "list_all2 (\<lambda>x y. f y = h x) xs ys \<Longrightarrow> map f ys = map h xs"
  by (induction rule: list_all2_induct) auto

lemma list_all2_concat_map:
  "list_all2 (\<lambda>x ys. map f ys = g x) xs yss \<Longrightarrow> map f (concat yss) = concat (map g xs)"
  by (induction rule: list_all2_induct) auto

lemma distinct_map_Some: "distinct (map (\<lambda>p. Some (k p)) ps) = distinct (map k ps)"
  by (induction ps) auto

section \<open>Evaluating the built-ins on the texts of the examples\<close>

lemma IP_cidr_0_0_0_0_0: "IP_cidr (Some ''0.0.0.0/0'') = Inr (IPNet 0 0)"
  by (simp add: IP_cidr_def decimal_def digits_value_def is_digit_def)

lemma IP_cidr_10_0_0_0_24: "IP_cidr (Some ''10.0.0.0/24'') = Inr (IPNet 0x0A000000 24)"
  by (simp add: IP_cidr_def decimal_def digits_value_def is_digit_def)

lemma IP_cidr_10_1_1_0_24: "IP_cidr (Some ''10.1.1.0/24'') = Inr (IPNet 0x0A010100 24)"
  by (simp add: IP_cidr_def decimal_def digits_value_def is_digit_def)

lemma IP_cidr_10_2_0_0_16: "IP_cidr (Some ''10.2.0.0/16'') = Inr (IPNet 0x0A020000 16)"
  by (simp add: IP_cidr_def decimal_def digits_value_def is_digit_def)

lemmas IP_cidr_eval =
  IP_cidr_0_0_0_0_0 IP_cidr_10_0_0_0_24 IP_cidr_10_1_1_0_24 IP_cidr_10_2_0_0_16

lemma py_int_1: "py_int (Some ''1'') = Inr 1"
  by (simp add: py_int_def strip_def is_space_def unsigned_int_def is_digit_def digits_value_def)

lemma py_int_2: "py_int (Some ''2'') = Inr 2"
  by (simp add: py_int_def strip_def is_space_def unsigned_int_def is_digit_def digits_value_def)

lemma py_int_one: "py_int (Some ''one'') = Inl ValueError"
  by (simp add: py_int_def strip_def is_space_def unsigned_int_def is_digit_def digits_value_def)

lemmas py_int_eval = py_int_1 py_int_2 py_int_one

section \<open>Policies: the loops in closed form\<close>

lemma policy_information_loop_eq:
  "policy_information_loop fz tz pies acc =
     (case comprehension (policy_from_xml fz tz) pies of
        Inl e \<Rightarrow> Inl e | Inr ps \<Rightarrow> Inr (acc @ ps))"
  by (induction pies arbitrary: acc) (auto split: sum.splits)

lemma security_context_loop_eq:
  "security_context_loop ctxs acc =
     (case comprehension context_policies ctxs of
        Inl e \<Rightarrow> Inl e | Inr pss \<Rightarrow> Inr (acc @ concat pss))"
  by (induction ctxs arbitrary: acc)
     (auto simp: policy_information_loop_eq context_policies_def split: sum.splits)

lemma parse_policies_eq:
  "parse_policies sspe =
     (case comprehension context_policies (findall [Descendant ''security-context''] sspe) of
        Inl e \<Rightarrow> Inl e | Inr pss \<Rightarrow> Inr (concat pss))"
  by (simp add: parse_policies_def security_context_loop_eq split: sum.splits)

lemma policy_from_xml_key:
  assumes "policy_from_xml fz tz pie = Inr p"
  shows "from_zone p = fz \<and> to_zone p = tz \<and>
    (\<exists>t. find_dot_text [Child ''policy-sequence-number''] pie = Inr t \<and> py_int t = Inr (sequence p))"
  using assms by (auto simp: policy_from_xml_def split: sum.splits)

lemma policy_from_xml_fails:
  assumes "find_elt [Child ''policy-name''] pie = None
         \<or> find_elt [Child ''policy-state''] pie = None
         \<or> find_elt [Child ''policy-sequence-number''] pie = None
         \<or> find_elt [Child ''policy-action'', Child ''action-type''] pie = None
         \<or> (\<exists>e. find_elt [Child ''policy-sequence-number''] pie = Some e \<and> isl (py_int (etext e)))"
  shows "isl (policy_from_xml fz tz pie)"
  using assms
  by (auto simp: policy_from_xml_def find_dot_text_def isl_def split: sum.splits option.splits)

lemma context_policies_fails:
  assumes "pie \<in> set (findall [Child ''policies'', Child ''policy-information''] ctx)"
    and "\<And>fz tz. isl (policy_from_xml fz tz pie)"
  shows "isl (context_policies ctx)"
  using assms by (auto simp: context_policies_def comprehension_isl_iff split: sum.splits)

lemma context_policies_Inr:
  assumes "context_policies ctx = Inr cps"
  shows "\<exists>fz tz.
     find_dot_text [Child ''context-information'', Child ''source-zone-name''] ctx = Inr fz \<and>
     find_dot_text [Child ''context-information'', Child ''destination-zone-name''] ctx = Inr tz \<and>
     list_all2 (\<lambda>pie p. policy_from_xml fz tz pie = Inr p)
       (findall [Child ''policies'', Child ''policy-information''] ctx) cps"
  using assms by (auto simp: context_policies_def comprehension_Inr_iff split: sum.splits)

lemma context_policies_keys:
  assumes "context_policies ctx = Inr cps"
  shows "map (\<lambda>p. Some (policy_key p)) cps =
         map entry_key (map (\<lambda>pie. (ctx, pie))
                          (findall [Child ''policies'', Child ''policy-information''] ctx))"
proof -
  from context_policies_Inr[OF assms] obtain fz tz where
    s: "find_dot_text [Child ''context-information'', Child ''source-zone-name''] ctx = Inr fz" and
    d: "find_dot_text [Child ''context-information'', Child ''destination-zone-name''] ctx = Inr tz" and
    l: "list_all2 (\<lambda>pie p. policy_from_xml fz tz pie = Inr p)
          (findall [Child ''policies'', Child ''policy-information''] ctx) cps"
    by blast
  have "list_all2 (\<lambda>pie p. Some (policy_key p) = entry_key (ctx, pie))
          (findall [Child ''policies'', Child ''policy-information''] ctx) cps"
  proof (rule list_all2_mono[OF l])
    fix pie p assume "policy_from_xml fz tz pie = Inr p"
    from policy_from_xml_key[OF this] s d
    show "Some (policy_key p) = entry_key (ctx, pie)"
      by (auto simp: entry_key_def policy_key_def)
  qed
  then have "map (\<lambda>p. Some (policy_key p)) cps =
      map (\<lambda>pie. entry_key (ctx, pie)) (findall [Child ''policies'', Child ''policy-information''] ctx)"
    by (rule list_all2_map_eq)
  then show ?thesis by (simp add: comp_def)
qed

lemma parse_policies_keys:
  assumes "parse_policies sspe = Inr ps"
  shows "map (\<lambda>p. Some (policy_key p)) ps = map entry_key (policy_entries sspe)"
proof -
  from assms obtain pss where
    c: "comprehension context_policies (findall [Descendant ''security-context''] sspe) = Inr pss"
    and ps: "ps = concat pss"
    by (auto simp: parse_policies_eq split: sum.splits)
  from c have "list_all2 (\<lambda>ctx cps. context_policies ctx = Inr cps)
                 (findall [Descendant ''security-context''] sspe) pss"
    by (simp add: comprehension_Inr_iff)
  then have "list_all2 (\<lambda>ctx cps. map (\<lambda>p. Some (policy_key p)) cps =
                map entry_key (map (\<lambda>pie. (ctx, pie))
                          (findall [Child ''policies'', Child ''policy-information''] ctx)))
                 (findall [Descendant ''security-context''] sspe) pss"
    by (rule list_all2_mono) (rule context_policies_keys)
  then have "map (\<lambda>p. Some (policy_key p)) (concat pss) =
      concat (map (\<lambda>ctx. map entry_key (map (\<lambda>pie. (ctx, pie))
                          (findall [Child ''policies'', Child ''policy-information''] ctx)))
                 (findall [Descendant ''security-context''] sspe))"
    by (rule list_all2_concat_map)
  with ps show ?thesis by (simp add: policy_entries_def map_concat comp_def)
qed

section \<open>Policies: the example documents\<close>

lemma policy_information_tag: "tag (policy_information nm st sq act) = ''policy-information''"
  by (simp add: policy_information_def)

lemma policy_information_no_context:
  "filter (\<lambda>d. tag d = ''security-context'') (iter (policy_information nm st sq act)) = []"
  by (simp add: policy_information_def path_eval)

lemma policy_information_sequence:
  "find_elt [Child ''policy-sequence-number''] (policy_information nm st sq act) =
     Some (Element ''policy-sequence-number'' (Some sq) [])"
  by (simp add: policy_information_def elt_eval)

lemma policy_from_xml_example:
  "policy_from_xml (Some fz) (Some tz) (policy_information nm st sq act) =
     (case py_int (Some sq) of
        Inl e \<Rightarrow> Inl e
      | Inr n \<Rightarrow> Inr (example_policy nm fz tz (st = ''enabled'') n act))"
  by (simp add: policy_from_xml_def policy_information_def elt_eval parse_address_def
        parse_application_def example_policy_def split: sum.splits)

lemma security_contexts_example:
  "findall [Descendant ''security-context''] (Element ''security-policies'' None
       [security_context fz tz [policy_information n1 s1 q1 a1, policy_information n2 s2 q2 a2]]) =
     [security_context fz tz [policy_information n1 s1 q1 a1, policy_information n2 s2 q2 a2]]"
  by (simp add: security_context_def path_eval policy_information_tag
        policy_information_no_context)

lemma security_context_entries:
  "findall [Child ''policies'', Child ''policy-information'']
     (security_context fz tz [policy_information n1 s1 q1 a1, policy_information n2 s2 q2 a2]) =
     [policy_information n1 s1 q1 a1, policy_information n2 s2 q2 a2]"
  by (simp add: security_context_def path_eval policy_information_tag)

lemma parse_policies_doc:
  "parse_policies policies_doc =
     Inr [example_policy ''web'' ''trust'' ''untrust'' True 2 ''permit'',
          example_policy ''block'' ''trust'' ''untrust'' False 1 ''deny'',
          example_policy ''in'' ''untrust'' ''trust'' True 1 ''deny'']"
  by (simp add: parse_policies_def policies_doc_def security_context_def elt_eval
        policy_from_xml_example py_int_eval policy_information_tag policy_information_no_context)

lemma entry_key_example:
  "entry_key (security_context fz tz pies, policy_information nm st sq act) =
     (case py_int (Some sq) of Inl e \<Rightarrow> None | Inr n \<Rightarrow> Some (Some fz, Some tz, n))"
  by (simp add: entry_key_def security_context_def policy_information_def elt_eval
        split: sum.splits)

lemma policy_entries_doc:
  "policy_entries policies_doc =
     [(security_context ''trust'' ''untrust''
          [policy_information ''web'' ''enabled'' ''2'' ''permit'',
           policy_information ''block'' ''disabled'' ''1'' ''deny''],
       policy_information ''web'' ''enabled'' ''2'' ''permit''),
      (security_context ''trust'' ''untrust''
          [policy_information ''web'' ''enabled'' ''2'' ''permit'',
           policy_information ''block'' ''disabled'' ''1'' ''deny''],
       policy_information ''block'' ''disabled'' ''1'' ''deny''),
      (security_context ''untrust'' ''trust'' [policy_information ''in'' ''enabled'' ''1'' ''deny''],
       policy_information ''in'' ''enabled'' ''1'' ''deny'')]"
  by (simp add: policy_entries_def policies_doc_def security_context_def path_eval
        policy_information_tag policy_information_no_context)

lemma entry_keys_doc:
  "map entry_key (policy_entries policies_doc) =
     [Some (Some ''trust'', Some ''untrust'', 2), Some (Some ''trust'', Some ''untrust'', 1),
      Some (Some ''untrust'', Some ''trust'', 1)]"
  by (simp add: policy_entries_doc entry_key_example py_int_eval)

section \<open>Claims on the policy extractor\<close>

text \<open>
  Claim C5. A \<^verbatim>\<open>policy-information\<close> entry that lacks its \<^verbatim>\<open>policy-name\<close>,
  \<^verbatim>\<open>policy-state\<close>, \<^verbatim>\<open>policy-sequence-number\<close> or
  \<^verbatim>\<open>policy-action/action-type\<close> element, or whose sequence number text \<^verbatim>\<open>int\<close>
  rejects, makes the parse of the whole policy document end in an error: the result is an
  exception, and no list of policies is returned. The entry is any entry the two loops
  reach: an entry of a \<^verbatim>\<open>security-context\<close> that lies anywhere below the root.
\<close>

theorem policy_entry_malformed_fails:
  assumes "ctx \<in> set (findall [Descendant ''security-context''] sspe)"
    and "pie \<in> set (findall [Child ''policies'', Child ''policy-information''] ctx)"
    and "find_elt [Child ''policy-name''] pie = None
         \<or> find_elt [Child ''policy-state''] pie = None
         \<or> find_elt [Child ''policy-sequence-number''] pie = None
         \<or> find_elt [Child ''policy-action'', Child ''action-type''] pie = None
         \<or> (\<exists>e. find_elt [Child ''policy-sequence-number''] pie = Some e \<and> isl (py_int (etext e)))"
  shows "\<exists>err. parse_policies sspe = Inl err"
proof -
  have "\<And>fz tz. isl (policy_from_xml fz tz pie)"
    using assms(3) by (rule policy_from_xml_fails)
  with assms(2) have "isl (context_policies ctx)" by (rule context_policies_fails)
  with assms(1)
  have "isl (comprehension context_policies (findall [Descendant ''security-context''] sspe))"
    by (auto simp: comprehension_isl_iff)
  then show ?thesis by (auto simp: parse_policies_eq isl_def)
qed

text \<open>The document \<open>policies_bad_sequence\<close>: its second entry has the sequence number
  \<^verbatim>\<open>one\<close>, and the parse fails although the first entry is well formed.\<close>

theorem policy_entry_malformed_fails_witness:
  "security_context ''trust'' ''untrust''
       [policy_information ''a'' ''enabled'' ''1'' ''permit'',
        policy_information ''b'' ''enabled'' ''one'' ''deny'']
     \<in> set (findall [Descendant ''security-context''] policies_bad_sequence)
   \<and> policy_information ''b'' ''enabled'' ''one'' ''deny''
     \<in> set (findall [Child ''policies'', Child ''policy-information'']
          (security_context ''trust'' ''untrust''
             [policy_information ''a'' ''enabled'' ''1'' ''permit'',
              policy_information ''b'' ''enabled'' ''one'' ''deny'']))
   \<and> (\<exists>e. find_elt [Child ''policy-sequence-number'']
             (policy_information ''b'' ''enabled'' ''one'' ''deny'') = Some e
          \<and> isl (py_int (etext e)))
   \<and> (\<exists>err. parse_policies policies_bad_sequence = Inl err)"
proof -
  have h1: "security_context ''trust'' ''untrust''
       [policy_information ''a'' ''enabled'' ''1'' ''permit'',
        policy_information ''b'' ''enabled'' ''one'' ''deny'']
     \<in> set (findall [Descendant ''security-context''] policies_bad_sequence)"
    by (simp add: policies_bad_sequence_def security_contexts_example)
  have h2: "policy_information ''b'' ''enabled'' ''one'' ''deny''
     \<in> set (findall [Child ''policies'', Child ''policy-information'']
          (security_context ''trust'' ''untrust''
             [policy_information ''a'' ''enabled'' ''1'' ''permit'',
              policy_information ''b'' ''enabled'' ''one'' ''deny'']))"
    by (simp add: security_context_entries)
  have h3: "\<exists>e. find_elt [Child ''policy-sequence-number'']
             (policy_information ''b'' ''enabled'' ''one'' ''deny'') = Some e
          \<and> isl (py_int (etext e))"
    by (simp add: policy_information_sequence py_int_eval)
  from h3 have "\<exists>err. parse_policies policies_bad_sequence = Inl err"
    by (intro policy_entry_malformed_fails[OF h1 h2]) blast
  with h1 h2 h3 show ?thesis by blast
qed

text \<open>
  Claim C9. The policies come out in the traversal order of the document: the result is
  the concatenation, over the \<^verbatim>\<open>security-context\<close> elements below the root in document
  order, of the policies of the \<^verbatim>\<open>policy-information\<close> entries of that context in
  document order, each parsed with the zone names of its context. Sequence numbers play
  no part in the order.
\<close>

theorem policies_in_document_order:
  assumes "parse_policies sspe = Inr ps"
  shows "\<exists>pss. ps = concat pss \<and>
     list_all2 (\<lambda>ctx cps. \<exists>fz tz.
         find_dot_text [Child ''context-information'', Child ''source-zone-name''] ctx = Inr fz \<and>
         find_dot_text [Child ''context-information'', Child ''destination-zone-name''] ctx = Inr tz \<and>
         list_all2 (\<lambda>pie p. policy_from_xml fz tz pie = Inr p)
           (findall [Child ''policies'', Child ''policy-information''] ctx) cps)
       (findall [Descendant ''security-context''] sspe) pss"
proof -
  from assms obtain pss where
    c: "comprehension context_policies (findall [Descendant ''security-context''] sspe) = Inr pss"
    and ps: "ps = concat pss"
    by (auto simp: parse_policies_eq split: sum.splits)
  from c have "list_all2 (\<lambda>ctx cps. context_policies ctx = Inr cps)
                 (findall [Descendant ''security-context''] sspe) pss"
    by (simp add: comprehension_Inr_iff)
  then have "list_all2 (\<lambda>ctx cps. \<exists>fz tz.
         find_dot_text [Child ''context-information'', Child ''source-zone-name''] ctx = Inr fz \<and>
         find_dot_text [Child ''context-information'', Child ''destination-zone-name''] ctx = Inr tz \<and>
         list_all2 (\<lambda>pie p. policy_from_xml fz tz pie = Inr p)
           (findall [Child ''policies'', Child ''policy-information''] ctx) cps)
       (findall [Descendant ''security-context''] sspe) pss"
    by (rule list_all2_mono) (rule context_policies_Inr)
  with ps show ?thesis by blast
qed

text \<open>The document \<open>policies_doc\<close>: the entry with sequence number 2 comes out before
  the entry with sequence number 1, as in the document.\<close>

theorem policies_in_document_order_witness:
  "parse_policies policies_doc =
     Inr [example_policy ''web'' ''trust'' ''untrust'' True 2 ''permit'',
          example_policy ''block'' ''trust'' ''untrust'' False 1 ''deny'',
          example_policy ''in'' ''untrust'' ''trust'' True 1 ''deny'']
   \<and> (\<exists>pss. [example_policy ''web'' ''trust'' ''untrust'' True 2 ''permit'',
             example_policy ''block'' ''trust'' ''untrust'' False 1 ''deny'',
             example_policy ''in'' ''untrust'' ''trust'' True 1 ''deny''] = concat pss \<and>
     list_all2 (\<lambda>ctx cps. \<exists>fz tz.
         find_dot_text [Child ''context-information'', Child ''source-zone-name''] ctx = Inr fz \<and>
         find_dot_text [Child ''context-information'', Child ''destination-zone-name''] ctx = Inr tz \<and>
         list_all2 (\<lambda>pie p. policy_from_xml fz tz pie = Inr p)
           (findall [Child ''policies'', Child ''policy-information''] ctx) cps)
       (findall [Descendant ''security-context''] policies_doc) pss)"
  using policies_in_document_order[OF parse_policies_doc] parse_policies_doc by blast

text \<open>
  Claim C8, as amended. The parser neither checks nor enforces that sequence numbers are
  unique. For every successfully parsed document, the zone pair and the sequence of the
  policies are, in order, those the document writes for its entries; so the sequence
  values of the policies of one zone pair are pairwise distinct exactly when the sequence
  numbers the document gives the entries of that pair are.
\<close>

theorem policy_sequences_as_written:
  assumes "parse_policies sspe = Inr ps"
  shows "map (\<lambda>p. Some (policy_key p)) ps = map entry_key (policy_entries sspe) \<and>
         (distinct (map policy_key ps) \<longleftrightarrow> distinct (map entry_key (policy_entries sspe)))"
proof -
  have k: "map (\<lambda>p. Some (policy_key p)) ps = map entry_key (policy_entries sspe)"
    using assms by (rule parse_policies_keys)
  have "distinct (map policy_key ps) = distinct (map (\<lambda>p. Some (policy_key p)) ps)"
    by (simp add: distinct_map_Some)
  with k show ?thesis by simp
qed

theorem policy_sequences_as_written_witness:
  "parse_policies policies_doc =
     Inr [example_policy ''web'' ''trust'' ''untrust'' True 2 ''permit'',
          example_policy ''block'' ''trust'' ''untrust'' False 1 ''deny'',
          example_policy ''in'' ''untrust'' ''trust'' True 1 ''deny'']
   \<and> distinct (map entry_key (policy_entries policies_doc))
   \<and> distinct (map policy_key
        [example_policy ''web'' ''trust'' ''untrust'' True 2 ''permit'',
         example_policy ''block'' ''trust'' ''untrust'' False 1 ''deny'',
         example_policy ''in'' ''untrust'' ''trust'' True 1 ''deny''])"
proof -
  have d: "distinct (map entry_key (policy_entries policies_doc))"
    by (simp add: entry_keys_doc)
  from policy_sequences_as_written[OF parse_policies_doc] d
  have "distinct (map policy_key
        [example_policy ''web'' ''trust'' ''untrust'' True 2 ''permit'',
         example_policy ''block'' ''trust'' ''untrust'' False 1 ''deny'',
         example_policy ''in'' ''untrust'' ''trust'' True 1 ''deny''])"
    by blast
  with d parse_policies_doc show ?thesis by blast
qed

text \<open>The claim as stated fails on \<open>policies_same_sequence\<close>: the document is parsed,
  and its two policies of the pair trust/untrust both have sequence 1.\<close>

theorem policy_sequences_distinct_counterexample:
  "parse_policies policies_same_sequence =
     Inr [example_policy ''a'' ''trust'' ''untrust'' True 1 ''permit'',
          example_policy ''b'' ''trust'' ''untrust'' True 1 ''deny'']
   \<and> policy_key (example_policy ''a'' ''trust'' ''untrust'' True 1 ''permit'') =
       policy_key (example_policy ''b'' ''trust'' ''untrust'' True 1 ''deny'')"
  by (simp add: parse_policies_def policies_same_sequence_def security_context_def elt_eval
        policy_from_xml_example py_int_eval policy_information_tag policy_information_no_context
        policy_key_def example_policy_def)

section \<open>Routes: the loops in closed form\<close>

lemma rt_entry_loop_Cons: "rt_entry_loop (e # es) r = rt_entry_loop es (entry_step e r)"
  by (simp add: entry_step_def active_def vias_def no_to_def Let_def)

lemma rt_entry_loop_append:
  "rt_entry_loop (es @ fs) r = rt_entry_loop fs (rt_entry_loop es r)"
  by (induction es arbitrary: r)
     (simp_all only: rt_entry_loop_Cons rt_entry_loop.simps(1) append.simps)

lemma rt_entry_loop_snoc: "rt_entry_loop (es @ [e]) r = entry_step e (rt_entry_loop es r)"
  by (simp only: rt_entry_loop_append rt_entry_loop_Cons rt_entry_loop.simps(1))

lemma rt_entry_loop_destination: "destination (rt_entry_loop es r) = destination r"
  by (induction es arbitrary: r rule: rev_induct)
     (auto simp: rt_entry_loop_snoc entry_step_def split: list.splits)

lemma rt_entry_loop_no_via:
  "\<forall>e \<in> set es. active e \<longrightarrow> vias e = [] \<Longrightarrow> interface (rt_entry_loop es r) = interface r"
  by (induction es arbitrary: r rule: rev_induct)
     (auto simp: rt_entry_loop_snoc entry_step_def split: list.splits)

lemma rt_entry_loop_no_active: "filter active es = [] \<Longrightarrow> rt_entry_loop es r = r"
  by (induction es arbitrary: r rule: rev_induct)
     (auto simp: rt_entry_loop_snoc entry_step_def split: if_splits)

lemma rt_entry_loop_is_local:
  "filter active es \<noteq> [] \<Longrightarrow>
   is_local (rt_entry_loop es r) = Some (no_to (last (filter active es)))"
  by (induction es arbitrary: r rule: rev_induct)
     (auto simp: rt_entry_loop_snoc entry_step_def split: list.splits)

lemma rt_entry_loop_interface:
  "filter (\<lambda>e. active e \<and> vias e \<noteq> []) es \<noteq> [] \<Longrightarrow>
   interface (rt_entry_loop es r) =
     etext (hd (vias (last (filter (\<lambda>e. active e \<and> vias e \<noteq> []) es))))"
  by (induction es arbitrary: r rule: rev_induct)
     (auto simp: rt_entry_loop_snoc entry_step_def split: list.splits)

lemma rt_entry_loop_interface_None:
  "filter (\<lambda>e. active e \<and> vias e \<noteq> []) es = [] \<Longrightarrow>
   interface (rt_entry_loop es r) = interface r"
  by (rule rt_entry_loop_no_via) (auto simp: filter_empty_conv)

lemma route_from_xml_Some:
  assumes "route_from_xml IP rt = Inr (Some r)"
  shows "\<exists>t d. find_dot_text [Child (ns @ ''rt-destination'')] rt = Inr t \<and> IP t = Inr d \<and>
           r = rt_entry_loop (findall [Child (ns @ ''rt-entry'')] rt)
                 \<lparr>destination = d, interface = None, is_local = None\<rparr> \<and>
           truthy (interface r)"
  using assms
  by (auto simp: route_from_xml_def Let_def split: sum.splits if_splits)

lemma route_from_xml_interface:
  "route_from_xml IP rt = Inr (Some r) \<Longrightarrow> \<exists>s. interface r = Some s \<and> s \<noteq> []"
  by (drule route_from_xml_Some) (auto simp: truthy_def split: option.splits)

lemma rt_loop_eq:
  "rt_loop IP rts acc =
     (case comprehension (route_from_xml IP) rts of
        Inl e \<Rightarrow> Inl e | Inr os \<Rightarrow> Inr (acc @ List.map_filter id os))"
  by (induction rts arbitrary: acc)
     (auto split: sum.splits option.splits simp: List.map_filter_simps)

lemma rt_loop_members:
  "rt_loop IP rts acc = Inr rs \<Longrightarrow> r \<in> set rs \<Longrightarrow>
   r \<in> set acc \<or> (\<exists>rt \<in> set rts. route_from_xml IP rt = Inr (Some r))"
proof (induction rts arbitrary: acc)
  case Nil
  then show ?case by simp
next
  case (Cons rt rts)
  show ?case
  proof (cases "route_from_xml IP rt")
    case (Inl e)
    with Cons.prems show ?thesis by simp
  next
    case (Inr o1)
    show ?thesis
    proof (cases o1)
      case None
      with Inr Cons.prems have "rt_loop IP rts acc = Inr rs" by simp
      from Cons.IH[OF this Cons.prems(2)] show ?thesis by auto
    next
      case (Some r1)
      with Inr Cons.prems have "rt_loop IP rts (acc @ [r1]) = Inr rs" by simp
      from Cons.IH[OF this Cons.prems(2)] Inr Some show ?thesis by auto
    qed
  qed
qed

lemma route_table_loop_none:
  "\<forall>t \<in> set ts. \<not> is_inet0 t \<Longrightarrow> route_table_loop IP ts = Inr []"
  by (induction ts) (auto simp: is_inet0_def)

lemma route_table_loop_first:
  "\<forall>t \<in> set pre. \<not> is_inet0 t \<Longrightarrow> is_inet0 t \<Longrightarrow>
   route_table_loop IP (pre @ t # post) = rt_loop IP (findall [Child (ns @ ''rt'')] t) []"
  by (induction pre) (auto simp: is_inet0_def)

lemma route_table_loop_members:
  "route_table_loop IP ts = Inr rs \<Longrightarrow> r \<in> set rs \<Longrightarrow>
   \<exists>t \<in> set ts. \<exists>rt \<in> set (findall [Child (ns @ ''rt'')] t). route_from_xml IP rt = Inr (Some r)"
proof (induction ts)
  case Nil
  then show ?case by simp
next
  case (Cons t ts)
  show ?case
  proof (cases "is_inet0 t")
    case True
    with Cons.prems have "rt_loop IP (findall [Child (ns @ ''rt'')] t) [] = Inr rs"
      by (simp add: is_inet0_def)
    from rt_loop_members[OF this Cons.prems(2)] show ?thesis by auto
  next
    case False
    with Cons show ?thesis by (auto simp: is_inet0_def)
  qed
qed

section \<open>Routes: the example documents\<close>

lemma rt_entries_eval:
  "findall [Child (ns @ ''rt-entry'')] rt_next_hop = [rt_entry_inactive, rt_entry_next_hop]"
  "findall [Child (ns @ ''rt-entry'')] rt_direct = [rt_entry_inactive, rt_entry_direct]"
  "findall [Child (ns @ ''rt-entry'')] rt_discard = [rt_entry_discard]"
  by (simp_all add: rt_next_hop_def rt_direct_def rt_discard_def path_eval
        rt_entry_inactive_def rt_entry_next_hop_def rt_entry_direct_def rt_entry_discard_def)

lemma rt_entry_eval:
  "\<not> active rt_entry_inactive" "active rt_entry_next_hop" "active rt_entry_direct"
  "active rt_entry_discard"
  "vias rt_entry_next_hop = [Element (ns @ ''via'') (Some ''ge-0/0/1'') []]"
  "vias rt_entry_direct = [Element (ns @ ''via'') (Some ''ge-0/0/1'') []]"
  "vias rt_entry_discard = []"
  "\<not> no_to rt_entry_next_hop" "no_to rt_entry_direct"
  by (simp_all add: active_def vias_def no_to_def path_eval ns_def
        rt_entry_inactive_def rt_entry_next_hop_def rt_entry_direct_def rt_entry_discard_def)

lemma rt_destination_eval:
  "find_dot_text [Child (ns @ ''rt-destination'')] rt_next_hop = Inr (Some ''10.1.1.0/24'')"
  "find_dot_text [Child (ns @ ''rt-destination'')] rt_direct = Inr (Some ''10.1.1.0/24'')"
  "find_dot_text [Child (ns @ ''rt-destination'')] rt_discard = Inr (Some ''10.2.0.0/16'')"
  by (simp_all add: rt_next_hop_def rt_direct_def rt_discard_def elt_eval ns_def
        rt_entry_inactive_def rt_entry_next_hop_def rt_entry_direct_def rt_entry_discard_def)

lemma route_from_xml_eval:
  "route_from_xml IP_cidr rt_next_hop =
     Inr (Some \<lparr>destination = IPNet 0x0A010100 24, interface = Some ''ge-0/0/1'',
                is_local = Some False\<rparr>)"
  "route_from_xml IP_cidr rt_direct =
     Inr (Some \<lparr>destination = IPNet 0x0A010100 24, interface = Some ''ge-0/0/1'',
                is_local = Some True\<rparr>)"
  "route_from_xml IP_cidr rt_discard = Inr None"
  by (simp_all add: route_from_xml_def rt_destination_eval rt_entries_eval IP_cidr_eval
        rt_entry_loop_Cons entry_step_def rt_entry_eval truthy_def
        del: rt_entry_loop.simps(2))

lemma rt_tag: "tag rt_next_hop = ns @ ''rt''" "tag rt_direct = ns @ ''rt''"
  "tag rt_discard = ns @ ''rt''"
  by (simp_all add: rt_next_hop_def rt_direct_def rt_discard_def)

lemma rt_no_tables:
  "filter (\<lambda>d. tag d = ns @ ''route-table'') (iter rt_next_hop) = []"
  "filter (\<lambda>d. tag d = ns @ ''route-table'') (iter rt_direct) = []"
  "filter (\<lambda>d. tag d = ns @ ''route-table'') (iter rt_discard) = []"
  by (simp_all add: rt_next_hop_def rt_direct_def rt_discard_def path_eval ns_def
        rt_entry_inactive_def rt_entry_next_hop_def rt_entry_direct_def rt_entry_discard_def)

lemma route_tables_eval:
  "findall [Descendant (ns @ ''route-table'')] routes_doc =
     [route_table ''inet.6'' [rt_direct]] @
     route_table ''inet.0'' [rt_next_hop, rt_discard] # [route_table ''inet.0'' [rt_direct]]"
  "findall [Descendant (ns @ ''route-table'')] routes_doc_no_inet0 =
     [route_table ''inet.6'' [rt_direct]]"
  by (simp_all add: routes_doc_def routes_doc_no_inet0_def route_table_def path_eval rt_no_tables
        rt_tag)

lemma is_inet0_eval:
  "is_inet0 (route_table ''inet.0'' rts)" "\<not> is_inet0 (route_table ''inet.6'' rts)"
  by (simp_all add: is_inet0_def route_table_def elt_eval)

lemma route_table_rts:
  "findall [Child (ns @ ''rt'')] (route_table ''inet.0'' [rt_next_hop, rt_discard]) =
     [rt_next_hop, rt_discard]"
  by (simp add: route_table_def path_eval rt_tag ns_def)

lemma parse_routes_eval:
  "parse_routes IP_cidr routes_doc =
     Inr [\<lparr>destination = IPNet 0x0A010100 24, interface = Some ''ge-0/0/1'',
           is_local = Some False\<rparr>]"
  "parse_routes IP_cidr routes_doc_no_inet0 = Inr []"
proof -
  have "route_table_loop IP_cidr
          ([route_table ''inet.6'' [rt_direct]] @
           route_table ''inet.0'' [rt_next_hop, rt_discard] # [route_table ''inet.0'' [rt_direct]]) =
        rt_loop IP_cidr
          (findall [Child (ns @ ''rt'')] (route_table ''inet.0'' [rt_next_hop, rt_discard])) []"
    by (rule route_table_loop_first) (simp_all add: is_inet0_eval)
  then show "parse_routes IP_cidr routes_doc =
     Inr [\<lparr>destination = IPNet 0x0A010100 24, interface = Some ''ge-0/0/1'',
           is_local = Some False\<rparr>]"
    by (simp only: parse_routes_def route_tables_eval route_table_rts rt_loop.simps
          route_from_xml_eval sum.case option.case append_Nil)
  have "route_table_loop IP_cidr [route_table ''inet.6'' [rt_direct]] = Inr []"
    by (rule route_table_loop_none) (simp add: is_inet0_eval)
  then show "parse_routes IP_cidr routes_doc_no_inet0 = Inr []"
    by (simp only: parse_routes_def route_tables_eval)
qed

section \<open>Claims on the route extractor\<close>

text \<open>
  Claim C2. Route extraction looks at the \<^verbatim>\<open>route-table\<close> elements below the root in
  document order. When none of them has the table name \<^verbatim>\<open>inet.0\<close> it returns the
  empty list, and raises nothing. Otherwise the result is that of the first such table
  alone, whatever tables stand before or after it: the routes of the \<^verbatim>\<open>rt\<close> children
  of that table, in order, leaving out the destinations for which \<^verbatim>\<open>Route._from_xml\<close>
  returns \<^verbatim>\<open>None\<close>.
\<close>

theorem routes_of_first_inet0_table:
  "((\<forall>t \<in> set (findall [Descendant (ns @ ''route-table'')] sre). \<not> is_inet0 t) \<longrightarrow>
      parse_routes IP sre = Inr [])
   \<and> (findall [Descendant (ns @ ''route-table'')] sre' = pre @ t # post \<and>
      (\<forall>u \<in> set pre. \<not> is_inet0 u) \<and> is_inet0 t \<longrightarrow>
      parse_routes IP sre' =
        (case comprehension (route_from_xml IP) (findall [Child (ns @ ''rt'')] t) of
           Inl e \<Rightarrow> Inl e
         | Inr os \<Rightarrow> Inr (List.map_filter id os)))"
  by (auto simp: parse_routes_def route_table_loop_none route_table_loop_first rt_loop_eq
           split: sum.splits)

text \<open>The document \<open>routes_doc\<close> has the tables \<^verbatim>\<open>inet.6\<close>, \<^verbatim>\<open>inet.0\<close> and
  \<^verbatim>\<open>inet.0\<close> again: the one route of the first \<^verbatim>\<open>inet.0\<close> table that has an interface
  is returned. The document \<open>routes_doc_no_inet0\<close> has the table \<^verbatim>\<open>inet.6\<close> only.\<close>

theorem routes_of_first_inet0_table_witness:
  "findall [Descendant (ns @ ''route-table'')] routes_doc_no_inet0 =
     [route_table ''inet.6'' [rt_direct]]
   \<and> \<not> is_inet0 (route_table ''inet.6'' [rt_direct])
   \<and> parse_routes IP_cidr routes_doc_no_inet0 = Inr []
   \<and> findall [Descendant (ns @ ''route-table'')] routes_doc =
       [route_table ''inet.6'' [rt_direct]] @
       route_table ''inet.0'' [rt_next_hop, rt_discard] # [route_table ''inet.0'' [rt_direct]]
   \<and> is_inet0 (route_table ''inet.0'' [rt_next_hop, rt_discard])
   \<and> parse_routes IP_cidr routes_doc =
       Inr [\<lparr>destination = IPNet 0x0A010100 24, interface = Some ''ge-0/0/1'',
             is_local = Some False\<rparr>]"
proof -
  note inst = routes_of_first_inet0_table
    [where sre = routes_doc_no_inet0 and sre' = routes_doc
       and pre = "[route_table ''inet.6'' [rt_direct]]"
       and t = "route_table ''inet.0'' [rt_next_hop, rt_discard]"
       and post = "[route_table ''inet.0'' [rt_direct]]" and IP = IP_cidr]
  have a: "\<forall>t \<in> set (findall [Descendant (ns @ ''route-table'')] routes_doc_no_inet0).
             \<not> is_inet0 t"
    by (simp add: route_tables_eval is_inet0_eval)
  have b: "\<forall>u \<in> set [route_table ''inet.6'' [rt_direct]]. \<not> is_inet0 u"
    by (simp add: is_inet0_eval)
  from inst a have r1: "parse_routes IP_cidr routes_doc_no_inet0 = Inr []" by blast
  from inst b route_tables_eval(1) is_inet0_eval(1)
  have "parse_routes IP_cidr routes_doc =
        (case comprehension (route_from_xml IP_cidr)
                (findall [Child (ns @ ''rt'')] (route_table ''inet.0'' [rt_next_hop, rt_discard])) of
           Inl e \<Rightarrow> Inl e
         | Inr os \<Rightarrow> Inr (List.map_filter id os))"
    by blast
  then have r2: "parse_routes IP_cidr routes_doc =
       Inr [\<lparr>destination = IPNet 0x0A010100 24, interface = Some ''ge-0/0/1'',
             is_local = Some False\<rparr>]"
    by (simp add: route_table_rts route_from_xml_eval List.map_filter_simps)
  from r1 r2 show ?thesis
    by (simp add: route_tables_eval is_inet0_eval)
qed

text \<open>
  Claim C3. Every route that \<^verbatim>\<open>Route._from_xml\<close> returns, and so every route in the
  list that route extraction returns, has an interface that is a string and is not empty.
  A destination none of whose active entries has a \<^verbatim>\<open>via\<close> element beneath it gives no
  route: the call returns \<^verbatim>\<open>None\<close> (when the destination itself can be read), and
  never a route.
\<close>

theorem route_interface_nonempty:
  "(route_from_xml IP rt = Inr (Some r) \<longrightarrow> (\<exists>s. interface r = Some s \<and> s \<noteq> []))
   \<and> (parse_routes IP sre = Inr rs \<longrightarrow> (\<forall>r' \<in> set rs. \<exists>s. interface r' = Some s \<and> s \<noteq> []))
   \<and> ((\<forall>e \<in> set (findall [Child (ns @ ''rt-entry'')] rt'). active e \<longrightarrow> vias e = []) \<longrightarrow>
        (\<forall>r'. route_from_xml IP rt' \<noteq> Inr (Some r')) \<and>
        (\<forall>t d. find_dot_text [Child (ns @ ''rt-destination'')] rt' = Inr t \<and> IP t = Inr d \<longrightarrow>
           route_from_xml IP rt' = Inr None))"
proof (intro conjI impI)
  assume "route_from_xml IP rt = Inr (Some r)"
  then show "\<exists>s. interface r = Some s \<and> s \<noteq> []" by (rule route_from_xml_interface)
next
  assume p: "parse_routes IP sre = Inr rs"
  show "\<forall>r' \<in> set rs. \<exists>s. interface r' = Some s \<and> s \<noteq> []"
  proof
    fix r' assume "r' \<in> set rs"
    with p obtain x where "route_from_xml IP x = Inr (Some r')"
      unfolding parse_routes_def by (blast dest: route_table_loop_members)
    then show "\<exists>s. interface r' = Some s \<and> s \<noteq> []" by (rule route_from_xml_interface)
  qed
next
  assume n: "\<forall>e \<in> set (findall [Child (ns @ ''rt-entry'')] rt'). active e \<longrightarrow> vias e = []"
  have i: "interface (rt_entry_loop (findall [Child (ns @ ''rt-entry'')] rt') r0) = interface r0"
    for r0 using n by (rule rt_entry_loop_no_via)
  show "\<forall>r'. route_from_xml IP rt' \<noteq> Inr (Some r')"
  proof (intro allI notI)
    fix r' assume "route_from_xml IP rt' = Inr (Some r')"
    from route_from_xml_Some[OF this] i show False by (auto simp: truthy_def)
  qed
  show "\<forall>t d. find_dot_text [Child (ns @ ''rt-destination'')] rt' = Inr t \<and> IP t = Inr d \<longrightarrow>
           route_from_xml IP rt' = Inr None"
    by (auto simp: route_from_xml_def i truthy_def)
qed

text \<open>The destination \<open>rt_next_hop\<close> gives a route with the interface \<^verbatim>\<open>ge-0/0/1\<close>;
  the active entry of \<open>rt_discard\<close> has no via, and the destination gives nothing; the
  document \<open>routes_doc\<close> holds both, and its one route has that interface.\<close>

theorem route_interface_nonempty_witness:
  "route_from_xml IP_cidr rt_next_hop =
     Inr (Some \<lparr>destination = IPNet 0x0A010100 24, interface = Some ''ge-0/0/1'',
                is_local = Some False\<rparr>)
   \<and> (\<exists>s. interface \<lparr>destination = IPNet 0x0A010100 24, interface = Some ''ge-0/0/1'',
                is_local = Some False\<rparr> = Some s \<and> s \<noteq> [])
   \<and> parse_routes IP_cidr routes_doc =
       Inr [\<lparr>destination = IPNet 0x0A010100 24, interface = Some ''ge-0/0/1'',
             is_local = Some False\<rparr>]
   \<and> findall [Child (ns @ ''rt-entry'')] rt_discard = [rt_entry_discard]
   \<and> active rt_entry_discard \<and> vias rt_entry_discard = []
   \<and> find_dot_text [Child (ns @ ''rt-destination'')] rt_discard = Inr (Some ''10.2.0.0/16'')
   \<and> IP_cidr (Some ''10.2.0.0/16'') = Inr (IPNet 0x0A020000 16)
   \<and> route_from_xml IP_cidr rt_discard = Inr None"
proof -
  note inst = route_interface_nonempty
    [where IP = IP_cidr and rt = rt_next_hop and rt' = rt_discard and sre = routes_doc
       and rs = "[\<lparr>destination = IPNet 0x0A010100 24, interface = Some ''ge-0/0/1'',
                  is_local = Some False\<rparr>]"
       and r = "\<lparr>destination = IPNet 0x0A010100 24, interface = Some ''ge-0/0/1'',
                 is_local = Some False\<rparr>"]
  have n: "\<forall>e \<in> set (findall [Child (ns @ ''rt-entry'')] rt_discard). active e \<longrightarrow> vias e = []"
    by (simp add: rt_entries_eval rt_entry_eval)
  from inst[THEN conjunct2, THEN conjunct1] parse_routes_eval(1)
  have "\<forall>r' \<in> set [\<lparr>destination = IPNet 0x0A010100 24, interface = Some ''ge-0/0/1'',
                is_local = Some False\<rparr>]. \<exists>s. interface r' = Some s \<and> s \<noteq> []"
    by (rule mp)
  then have a: "\<exists>s. interface \<lparr>destination = IPNet 0x0A010100 24, interface = Some ''ge-0/0/1'',
                is_local = Some False\<rparr> = Some s \<and> s \<noteq> []"
    by simp
  from inst n rt_destination_eval(3) IP_cidr_10_2_0_0_16
  have b: "route_from_xml IP_cidr rt_discard = Inr None" by blast
  from a b show ?thesis
    by (simp add: route_from_xml_eval(1) rt_entries_eval rt_entry_eval rt_destination_eval
          IP_cidr_eval parse_routes_eval)
qed

lemma route_from_xml_active:
  assumes "route_from_xml IP rt = Inr (Some r)"
  shows "filter (\<lambda>e. active e \<and> vias e \<noteq> []) (findall [Child (ns @ ''rt-entry'')] rt) \<noteq> []"
proof
  assume e: "filter (\<lambda>e. active e \<and> vias e \<noteq> []) (findall [Child (ns @ ''rt-entry'')] rt) = []"
  from route_from_xml_Some[OF assms] obtain d where
    r: "r = rt_entry_loop (findall [Child (ns @ ''rt-entry'')] rt)
              \<lparr>destination = d, interface = None, is_local = None\<rparr>"
    and t: "truthy (interface r)" by blast
  from r rt_entry_loop_interface_None[OF e] have "interface r = None" by simp
  with t show False by (simp add: truthy_def)
qed

lemma route_from_xml_fields:
  assumes "route_from_xml IP rt = Inr (Some r)"
  shows "is_local r = Some (no_to (last (filter active (findall [Child (ns @ ''rt-entry'')] rt))))"
    and "interface r = etext (hd (vias (last (filter (\<lambda>e. active e \<and> vias e \<noteq> [])
                                  (findall [Child (ns @ ''rt-entry'')] rt)))))"
    and "filter active (findall [Child (ns @ ''rt-entry'')] rt) \<noteq> []"
proof -
  let ?es = "findall [Child (ns @ ''rt-entry'')] rt"
  from route_from_xml_Some[OF assms] obtain d where
    r: "r = rt_entry_loop ?es \<lparr>destination = d, interface = None, is_local = None\<rparr>"
    by blast
  have v: "filter (\<lambda>e. active e \<and> vias e \<noteq> []) ?es \<noteq> []"
    using assms by (rule route_from_xml_active)
  then show a: "filter active ?es \<noteq> []"
    by (auto simp: filter_empty_conv)
  from r rt_entry_loop_is_local[OF a]
  show "is_local r = Some (no_to (last (filter active ?es)))" by simp
  from r rt_entry_loop_interface[OF v]
  show "interface r = etext (hd (vias (last (filter (\<lambda>e. active e \<and> vias e \<noteq> []) ?es))))"
    by simp
qed

lemma filter_single_refine:
  assumes "filter P xs = [e]" and "filter (\<lambda>x. P x \<and> Q x) xs \<noteq> []"
  shows "Q e \<and> filter (\<lambda>x. P x \<and> Q x) xs = [e]"
proof -
  have "filter (\<lambda>x. P x \<and> Q x) xs = filter Q (filter P xs)" by simp
  with assms show ?thesis by (auto split: if_splits)
qed

text \<open>
  Claim C4, as amended. For every route that \<^verbatim>\<open>Route._from_xml\<close> returns, the
  destination has an active entry; \<^verbatim>\<open>is_local\<close> is true exactly when the active entry
  (the last one, should several be marked) has no \<^verbatim>\<open>to\<close> element beneath it; and the
  interface is the text of the first \<^verbatim>\<open>via\<close> element beneath the active entry (the
  last active entry that has one, should several be marked). In particular, a destination
  with two \<^verbatim>\<open>rt-entry\<close> children of which only the second is active, its first via
  being \<^verbatim>\<open>ge-0/0/1\<close>, gives exactly one route, with that interface, and with
  \<^verbatim>\<open>is_local\<close> false when the entry has a \<^verbatim>\<open>to\<close> element beneath it and true when
  it has none.
\<close>

theorem route_fields_of_active_entry:
  "(route_from_xml IP rt = Inr (Some r) \<longrightarrow>
      filter active (findall [Child (ns @ ''rt-entry'')] rt) \<noteq> [] \<and>
      is_local r = Some (no_to (last (filter active (findall [Child (ns @ ''rt-entry'')] rt)))) \<and>
      interface r = etext (hd (vias (last (filter (\<lambda>e. active e \<and> vias e \<noteq> [])
                                    (findall [Child (ns @ ''rt-entry'')] rt))))) \<and>
      (\<forall>e. filter active (findall [Child (ns @ ''rt-entry'')] rt) = [e] \<longrightarrow>
           vias e \<noteq> [] \<and> is_local r = Some (no_to e) \<and> interface r = etext (hd (vias e))))
   \<and> (findall [Child (ns @ ''rt-entry'')] rt' = [efirst, esecond] \<and> \<not> active efirst \<and> active esecond \<and>
      vias esecond = v # vs \<and> etext v = Some ''ge-0/0/1'' \<and>
      find_dot_text [Child (ns @ ''rt-destination'')] rt' = Inr t \<and> IP t = Inr d \<longrightarrow>
      route_from_xml IP rt' =
        Inr (Some \<lparr>destination = d, interface = Some ''ge-0/0/1'', is_local = Some (no_to esecond)\<rparr>))"
proof (intro conjI impI allI)
  assume a: "route_from_xml IP rt = Inr (Some r)"
  note f = route_from_xml_fields[OF a]
  show "filter active (findall [Child (ns @ ''rt-entry'')] rt) \<noteq> []" by (rule f(3))
  show "is_local r = Some (no_to (last (filter active (findall [Child (ns @ ''rt-entry'')] rt))))"
    by (rule f(1))
  show "interface r = etext (hd (vias (last (filter (\<lambda>e. active e \<and> vias e \<noteq> [])
                                    (findall [Child (ns @ ''rt-entry'')] rt)))))"
    by (rule f(2))
  fix e assume e: "filter active (findall [Child (ns @ ''rt-entry'')] rt) = [e]"
  from filter_single_refine[OF e route_from_xml_active[OF a]]
  have q: "vias e \<noteq> []"
    and s: "filter (\<lambda>e. active e \<and> vias e \<noteq> []) (findall [Child (ns @ ''rt-entry'')] rt) = [e]"
    by blast+
  from q show "vias e \<noteq> []" .
  from f(1) e show "is_local r = Some (no_to e)" by simp
  from f(2) s show "interface r = etext (hd (vias e))" by simp
next
  assume "findall [Child (ns @ ''rt-entry'')] rt' = [efirst, esecond] \<and> \<not> active efirst \<and> active esecond \<and>
      vias esecond = v # vs \<and> etext v = Some ''ge-0/0/1'' \<and>
      find_dot_text [Child (ns @ ''rt-destination'')] rt' = Inr t \<and> IP t = Inr d"
  then show "route_from_xml IP rt' =
        Inr (Some \<lparr>destination = d, interface = Some ''ge-0/0/1'', is_local = Some (no_to esecond)\<rparr>)"
    by (simp add: route_from_xml_def rt_entry_loop_Cons entry_step_def truthy_def
          del: rt_entry_loop.simps(2))
qed

text \<open>The destination \<open>rt_next_hop\<close>: its second entry alone is active and has a next
  hop address, and the route is not local.\<close>

theorem route_fields_of_active_entry_witness:
  "route_from_xml IP_cidr rt_next_hop =
     Inr (Some \<lparr>destination = IPNet 0x0A010100 24, interface = Some ''ge-0/0/1'',
                is_local = Some False\<rparr>)
   \<and> findall [Child (ns @ ''rt-entry'')] rt_next_hop = [rt_entry_inactive, rt_entry_next_hop]
   \<and> \<not> active rt_entry_inactive \<and> active rt_entry_next_hop
   \<and> vias rt_entry_next_hop = [Element (ns @ ''via'') (Some ''ge-0/0/1'') []]
   \<and> \<not> no_to rt_entry_next_hop
   \<and> find_dot_text [Child (ns @ ''rt-destination'')] rt_next_hop = Inr (Some ''10.1.1.0/24'')
   \<and> IP_cidr (Some ''10.1.1.0/24'') = Inr (IPNet 0x0A010100 24)
   \<and> filter active (findall [Child (ns @ ''rt-entry'')] rt_next_hop) = [rt_entry_next_hop]"
proof -
  note inst = route_fields_of_active_entry
    [where IP = IP_cidr and rt = rt_next_hop and rt' = rt_next_hop
       and efirst = rt_entry_inactive and esecond = rt_entry_next_hop
       and v = "Element (ns @ ''via'') (Some ''ge-0/0/1'') []" and vs = "[]"
       and t = "Some ''10.1.1.0/24''" and d = "IPNet 0x0A010100 24"
       and r = "\<lparr>destination = IPNet 0x0A010100 24, interface = Some ''ge-0/0/1'',
                 is_local = Some False\<rparr>"]
  have h: "findall [Child (ns @ ''rt-entry'')] rt_next_hop = [rt_entry_inactive, rt_entry_next_hop] \<and>
      \<not> active rt_entry_inactive \<and> active rt_entry_next_hop \<and>
      vias rt_entry_next_hop = Element (ns @ ''via'') (Some ''ge-0/0/1'') [] # [] \<and>
      etext (Element (ns @ ''via'') (Some ''ge-0/0/1'') []) = Some ''ge-0/0/1'' \<and>
      find_dot_text [Child (ns @ ''rt-destination'')] rt_next_hop = Inr (Some ''10.1.1.0/24'') \<and>
      IP_cidr (Some ''10.1.1.0/24'') = Inr (IPNet 0x0A010100 24)"
    by (simp add: rt_entries_eval rt_entry_eval rt_destination_eval IP_cidr_eval)
  from inst[THEN conjunct2] h
  have "route_from_xml IP_cidr rt_next_hop =
     Inr (Some \<lparr>destination = IPNet 0x0A010100 24, interface = Some ''ge-0/0/1'',
                is_local = Some (no_to rt_entry_next_hop)\<rparr>)"
    by (rule mp)
  then have r: "route_from_xml IP_cidr rt_next_hop =
     Inr (Some \<lparr>destination = IPNet 0x0A010100 24, interface = Some ''ge-0/0/1'',
                is_local = Some False\<rparr>)"
    by (simp add: rt_entry_eval)
  from r h show ?thesis by (simp add: rt_entry_eval)
qed

text \<open>The claim as stated fails on \<open>rt_direct\<close>: two \<^verbatim>\<open>rt-entry\<close> children, only the
  second active, with via \<^verbatim>\<open>ge-0/0/1\<close> and no \<^verbatim>\<open>to\<close> element. The one route has
  \<^verbatim>\<open>is_local\<close> true, not false.\<close>

theorem route_is_local_counterexample:
  "findall [Child (ns @ ''rt-entry'')] rt_direct = [rt_entry_inactive, rt_entry_direct]
   \<and> \<not> active rt_entry_inactive \<and> active rt_entry_direct
   \<and> map etext (vias rt_entry_direct) = [Some ''ge-0/0/1'']
   \<and> route_from_xml IP_cidr rt_direct =
       Inr (Some \<lparr>destination = IPNet 0x0A010100 24, interface = Some ''ge-0/0/1'',
                  is_local = Some True\<rparr>)"
  by (simp add: rt_entries_eval rt_entry_eval route_from_xml_eval)

section \<open>Zones: the loops in closed form\<close>

lemma IPSet_Nil: "IPSet [] = {}"
  by (simp add: IPSet_def)

lemma IPSet_single: "IPSet [i] = ip_addrs i"
  by (simp add: IPSet_def)

lemma ip_addrs_full: "ip_addrs (IPNet 0 0) = UNIV"
  by (simp add: ip_addrs_def)

lemma ip_addrs_10_0_0_0_24_not_full: "ip_addrs (IPNet 0x0A000000 24) \<noteq> UNIV"
proof -
  have "(0 :: ipv4) \<notin> ip_addrs (IPNet 0x0A000000 24)"
    by (simp add: ip_addrs_def drop_bit_eq_div)
  then show ?thesis by blast
qed

lemma set_member_loop_Inr:
  "set_member_loop addrs ms ip = Inr s \<Longrightarrow>
     findtext [Child ''name''] ` set ms \<subseteq> dom addrs \<and>
     s = ip \<union> (\<Union>n \<in> findtext [Child ''name''] ` set ms. the (addrs n))"
  by (induction ms arbitrary: ip)
     (auto simp: Let_def ipset_add_def split: option.splits)

lemma set_member_loop_fails:
  "\<exists>m \<in> set ms. addrs (findtext [Child ''name''] m) = None \<Longrightarrow>
   isl (set_member_loop addrs ms ip)"
  by (induction ms arbitrary: ip) (auto simp: Let_def split: option.splits)

lemma resolve_set_Inr:
  assumes "resolve_entry IP addrs aset = Inr s" and "tag aset \<noteq> ''address''"
  shows "set (member_names aset) \<subseteq> dom addrs \<and>
         s = (\<Union>n \<in> set (member_names aset). the (addrs n))"
  using assms set_member_loop_Inr[of addrs "findall [Child ''address''] aset" "IPSet []" s]
  by (simp add: resolve_entry_def member_names_def IPSet_Nil)

lemma resolve_set_fails:
  assumes "tag aset \<noteq> ''address''" and "n \<in> set (member_names aset)" and "addrs n = None"
  shows "isl (resolve_entry IP addrs aset)"
proof -
  from assms(2,3) have "\<exists>m \<in> set (findall [Child ''address''] aset).
      addrs (findtext [Child ''name''] m) = None"
    by (auto simp: member_names_def)
  then have "isl (set_member_loop addrs (findall [Child ''address''] aset) (IPSet []))"
    by (rule set_member_loop_fails)
  with assms(1) show ?thesis by (simp add: resolve_entry_def)
qed

lemma address_book_loop_Cons:
  "address_book_loop IP (addr # rest) zone =
     (case resolve_entry IP (addresses zone) addr of
        Inl e \<Rightarrow> Inl e
      | Inr ip \<Rightarrow>
          address_book_loop IP rest (zone\<lparr>addresses := (addresses zone)(entry_name addr \<mapsto> ip)\<rparr>))"
  by (simp add: entry_name_def Let_def split: sum.splits)

lemma address_book_loop_append:
  "address_book_loop IP (xs @ ys) z =
     (case address_book_loop IP xs z of
        Inl e \<Rightarrow> Inl e | Inr z' \<Rightarrow> address_book_loop IP ys z')"
  by (induction xs arbitrary: z) (auto simp: Let_def split: sum.splits)

lemma address_book_loop_frame:
  "address_book_loop IP xs z = Inr z' \<Longrightarrow>
     zname z' = zname z \<and> interfaces z' = interfaces z \<and>
     dom (addresses z') = dom (addresses z) \<union> entry_name ` set xs \<and>
     (\<forall>k. k \<notin> entry_name ` set xs \<longrightarrow> addresses z' k = addresses z k)"
proof (induction xs arbitrary: z)
  case Nil
  then show ?case by simp
next
  case (Cons x xs)
  from Cons.prems obtain ip where
    r: "resolve_entry IP (addresses z) x = Inr ip" and
    l: "address_book_loop IP xs (z\<lparr>addresses := (addresses z)(entry_name x \<mapsto> ip)\<rparr>) = Inr z'"
    by (auto simp: address_book_loop_Cons simp del: address_book_loop.simps split: sum.splits)
  from Cons.IH[OF l] show ?case by auto
qed

lemma address_book_loop_cong:
  "addresses z1 = addresses z2 \<Longrightarrow>
   map_sum (\<lambda>e. e) addresses (address_book_loop IP xs z1) =
   map_sum (\<lambda>e. e) addresses (address_book_loop IP xs z2)"
proof (induction xs arbitrary: z1 z2)
  case Nil
  then show ?case by simp
next
  case (Cons x xs)
  show ?case
  proof (cases "resolve_entry IP (addresses z2) x")
    case (Inl e)
    with Cons.prems show ?thesis
      by (simp add: address_book_loop_Cons del: address_book_loop.simps)
  next
    case (Inr ip)
    have "map_sum (\<lambda>e. e) addresses
            (address_book_loop IP xs (z1\<lparr>addresses := (addresses z1)(entry_name x \<mapsto> ip)\<rparr>)) =
          map_sum (\<lambda>e. e) addresses
            (address_book_loop IP xs (z2\<lparr>addresses := (addresses z2)(entry_name x \<mapsto> ip)\<rparr>))"
      by (rule Cons.IH) (simp add: Cons.prems)
    with Inr Cons.prems show ?thesis
      by (simp add: address_book_loop_Cons del: address_book_loop.simps)
  qed
qed

lemma address_book_loop_last:
  assumes "address_book_loop IP (pre @ e # post) z = Inr z'"
    and "entry_name e \<notin> entry_name ` set post"
  shows "\<exists>zp v. address_book_loop IP pre z = Inr zp \<and>
           resolve_entry IP (addresses zp) e = Inr v \<and>
           addresses z' (entry_name e) = Some v"
proof -
  from assms(1) obtain zp where p: "address_book_loop IP pre z = Inr zp"
    and q: "address_book_loop IP (e # post) zp = Inr z'"
    by (auto simp: address_book_loop_append split: sum.splits)
  from q obtain v where r: "resolve_entry IP (addresses zp) e = Inr v"
    and l: "address_book_loop IP post (zp\<lparr>addresses := (addresses zp)(entry_name e \<mapsto> v)\<rparr>) = Inr z'"
    by (auto simp: address_book_loop_Cons simp del: address_book_loop.simps split: sum.splits)
  from address_book_loop_frame[OF l] assms(2)
  have "addresses z' (entry_name e) = Some v" by simp
  with p r show ?thesis by blast
qed

lemma address_book_loop_unknown_member:
  assumes "tag aset \<noteq> ''address''" and "n \<in> set (member_names aset)"
    and "n \<notin> dom (addresses z) \<union> entry_name ` set pre"
  shows "isl (address_book_loop IP (pre @ aset # post) z)"
proof (cases "address_book_loop IP pre z")
  case (Inl e)
  then show ?thesis by (simp add: address_book_loop_append)
next
  case (Inr zp)
  from address_book_loop_frame[OF Inr] assms(3) have "addresses zp n = None"
    by (auto simp: dom_def)
  with assms(1,2) have "isl (resolve_entry IP (addresses zp) aset)"
    by (rule resolve_set_fails)
  with Inr show ?thesis
    by (auto simp: address_book_loop_append address_book_loop_Cons isl_def
             simp del: address_book_loop.simps)
qed

lemma zone_from_xml_Inr:
  assumes "zone_from_xml IP sze = Inr z"
  shows "\<exists>i nm book. IP (Some ''0.0.0.0/0'') = Inr i \<and>
           find_elt [Child ''address-book''] sze = Some book \<and>
           address_book_loop IP (children book)
             \<lparr>zname = nm,
              interfaces = map etext (findall [Descendant ''interfaces'', Child ''name''] sze),
              addresses = [Some ''any'' \<mapsto> IPSet [i]]\<rparr> = Inr z"
  using assms
  by (auto simp: zone_from_xml_def Zone_init_def Let_def split: sum.splits option.splits)

lemma book_entries_Cons:
  "book_entries sze = pre @ e # post \<Longrightarrow>
   \<exists>book. find_elt [Child ''address-book''] sze = Some book \<and> children book = pre @ e # post"
  by (auto simp: book_entries_def split: option.splits)

lemma addresses_after_eq:
  assumes "IP (Some ''0.0.0.0/0'') = Inr i" and "addresses z0 = [Some ''any'' \<mapsto> IPSet [i]]"
  shows "addresses_after IP pre = map_sum (\<lambda>e. e) addresses (address_book_loop IP pre z0)"
proof -
  have "map_sum (\<lambda>e. e) addresses
          (address_book_loop IP pre
             \<lparr>zname = None, interfaces = [], addresses = [Some ''any'' \<mapsto> IPSet [i]]\<rparr>) =
        map_sum (\<lambda>e. e) addresses (address_book_loop IP pre z0)"
    by (rule address_book_loop_cong) (simp add: assms(2))
  then show ?thesis
    by (simp add: addresses_after_def Zone_init_def assms(1) map_sum_def split: sum.splits)
qed

lemma zone_last_binding:
  assumes "zone_from_xml IP sze = Inr z"
    and "book_entries sze = pre @ e # post"
    and "entry_name e \<notin> entry_name ` set post"
  shows "\<exists>m v. addresses_after IP pre = Inr m \<and> resolve_entry IP m e = Inr v \<and>
           addresses z (entry_name e) = Some v"
proof -
  from zone_from_xml_Inr[OF assms(1)] obtain i nm book where
    i: "IP (Some ''0.0.0.0/0'') = Inr i" and
    b: "find_elt [Child ''address-book''] sze = Some book" and
    l: "address_book_loop IP (children book)
             \<lparr>zname = nm,
              interfaces = map etext (findall [Descendant ''interfaces'', Child ''name''] sze),
              addresses = [Some ''any'' \<mapsto> IPSet [i]]\<rparr> = Inr z" (is "address_book_loop IP _ ?z0 = _")
    by blast
  from b assms(2) have c: "children book = pre @ e # post" by (simp add: book_entries_def)
  from address_book_loop_last[OF l[unfolded c] assms(3)] obtain zp v where
    p: "address_book_loop IP pre ?z0 = Inr zp" and
    r: "resolve_entry IP (addresses zp) e = Inr v" and
    a: "addresses z (entry_name e) = Some v" by blast
  have "addresses_after IP pre = map_sum (\<lambda>e. e) addresses (address_book_loop IP pre ?z0)"
    using i by (rule addresses_after_eq) simp
  with p have "addresses_after IP pre = Inr (addresses zp)" by simp
  with r a show ?thesis by blast
qed

lemma security_zone_loop_fails:
  "\<exists>sz \<in> set szs. isl (zone_from_xml IP sz) \<Longrightarrow> isl (security_zone_loop IP szs acc)"
  by (induction szs arbitrary: acc) (auto split: sum.splits simp: isl_def)

section \<open>Zones: the example documents\<close>

lemma ipset_eval:
  "ipset_add (IPSet []) s = s" "IPSet [IPNet 0 0] = UNIV" "ipset_add s UNIV = UNIV"
  by (simp_all add: ipset_add_def IPSet_Nil IPSet_single ip_addrs_full)

lemma address_eval:
  "tag (address nm prefix) = ''address''"
  "entry_name (address nm prefix) = Some nm"
  "resolve_entry IP addrs (address nm prefix) =
     (case IP (Some prefix) of Inl e \<Rightarrow> Inl e | Inr i \<Rightarrow> Inr (IPSet [i]))"
  by (simp_all add: address_def entry_name_def resolve_entry_def elt_eval)

lemma address_set_eval:
  "tag (address_set nm ms) \<noteq> ''address''"
  "entry_name (address_set nm ms) = Some nm"
  "member_names (address_set nm [a]) = [Some a]"
  "member_names (address_set nm [a, b]) = [Some a, Some b]"
  by (simp_all add: address_set_def entry_name_def member_names_def elt_eval)

lemma resolve_set_eval:
  "resolve_entry IP addrs (address_set nm [a]) =
     (case addrs (Some a) of None \<Rightarrow> Inl (KeyError (Some a)) | Some s \<Rightarrow> Inr s)"
  "resolve_entry IP addrs (address_set nm [a, b]) =
     (case addrs (Some a) of
        None \<Rightarrow> Inl (KeyError (Some a))
      | Some s \<Rightarrow>
          (case addrs (Some b) of
             None \<Rightarrow> Inl (KeyError (Some b))
           | Some s' \<Rightarrow> Inr (ipset_add s s')))"
  by (simp_all add: address_set_def resolve_entry_def elt_eval ipset_eval Let_def
        split: option.splits)

lemma no_interfaces_below:
  "filter (\<lambda>d. tag d = ''interfaces'') (iter (address nm prefix)) = []"
  "filter (\<lambda>d. tag d = ''interfaces'') (iter (address_set nm [a])) = []"
  "filter (\<lambda>d. tag d = ''interfaces'') (iter (address_set nm [a, b])) = []"
  by (simp_all add: address_def address_set_def path_eval)

lemma security_zone_eval:
  "book_entries (security_zone book) = book"
  "filter (\<lambda>d. tag d = ''interfaces'') (concat (map iter book)) = [] \<Longrightarrow>
   zone_from_xml IP_cidr (security_zone book) =
     address_book_loop IP_cidr book
       \<lparr>zname = Some ''trust'', interfaces = [Some ''ge-0/0/1.0''],
        addresses = [Some ''any'' \<mapsto> UNIV]\<rparr>"
  by (simp_all add: book_entries_def security_zone_def zone_from_xml_def Zone_init_def
        IP_cidr_eval elt_eval ipset_eval)

lemmas zone_eval =
  security_zone_eval no_interfaces_below address_book_loop_Cons address_eval address_set_eval
  resolve_set_eval IP_cidr_eval ipset_eval IPSet_single ip_addrs_full

lemma zone_A_S_eval:
  "zone_from_xml IP_cidr zone_A_S =
     Inr \<lparr>zname = Some ''trust'', interfaces = [Some ''ge-0/0/1.0''],
          addresses = [Some ''any'' \<mapsto> UNIV, Some ''A'' \<mapsto> ip_addrs (IPNet 0x0A000000 24),
                       Some ''S'' \<mapsto> UNIV]\<rparr>"
  by (simp add: zone_A_S_def zone_eval del: address_book_loop.simps(2))

lemma zone_any_redefined_eval:
  "zone_from_xml IP_cidr zone_any_redefined =
     Inr \<lparr>zname = Some ''trust'', interfaces = [Some ''ge-0/0/1.0''],
          addresses = [Some ''any'' \<mapsto> ip_addrs (IPNet 0x0A000000 24),
                       Some ''S'' \<mapsto> ip_addrs (IPNet 0x0A000000 24)]\<rparr>"
  by (simp add: zone_any_redefined_def zone_eval del: address_book_loop.simps(2))

lemma zone_twice_eval:
  "zone_from_xml IP_cidr zone_twice =
     Inr \<lparr>zname = Some ''trust'', interfaces = [Some ''ge-0/0/1.0''],
          addresses = [Some ''any'' \<mapsto> UNIV, Some ''A'' \<mapsto> ip_addrs (IPNet 0x0A010100 24)]\<rparr>"
  by (simp add: zone_twice_def zone_eval del: address_book_loop.simps(2))

lemma zone_empty_book_eval:
  "zone_from_xml IP_cidr zone_empty_book =
     Inr \<lparr>zname = Some ''trust'', interfaces = [Some ''ge-0/0/1.0''],
          addresses = [Some ''any'' \<mapsto> UNIV]\<rparr>"
  by (simp add: zone_empty_book_def zone_eval del: address_book_loop.simps(2))

lemma zone_forward_reference_eval:
  "zone_from_xml IP_cidr zone_forward_reference = Inl (KeyError (Some ''A''))"
  by (simp add: zone_forward_reference_def zone_eval del: address_book_loop.simps(2))

lemma zone_no_book_eval: "zone_from_xml IP_cidr zone_no_book = Inl TypeError"
  by (simp add: zone_no_book_def zone_from_xml_def Zone_init_def IP_cidr_eval elt_eval)

lemma addresses_after_eval:
  "addresses_after IP_cidr [] = Inr [Some ''any'' \<mapsto> UNIV]"
  "addresses_after IP_cidr [address ''A'' ''10.0.0.0/24''] =
     Inr [Some ''any'' \<mapsto> UNIV, Some ''A'' \<mapsto> ip_addrs (IPNet 0x0A000000 24)]"
  by (simp_all add: addresses_after_def Zone_init_def zone_eval
        del: address_book_loop.simps(2))

lemma zones_doc_forward_reference_eval:
  "findall [Descendant ''security-zone''] zones_doc_forward_reference = [zone_forward_reference]"
  by (simp add: zones_doc_forward_reference_def zone_forward_reference_def security_zone_def
        address_def address_set_def path_eval)

section \<open>Claims on the zone extractor\<close>

text \<open>
  Claim C1, as amended. For every zone that zone extraction returns whose address book
  has no entry named \<^verbatim>\<open>any\<close>, the mapping \<^verbatim>\<open>addresses\<close> binds \<^verbatim>\<open>any\<close> to the full
  IPv4 address space, the network \<^verbatim>\<open>0.0.0.0/0\<close> of \<^verbatim>\<open>Zone.__init__\<close>; this holds
  when the \<^verbatim>\<open>address-book\<close> element is empty. (An entry named \<^verbatim>\<open>any\<close> replaces the
  binding, see C10, and a \<^verbatim>\<open>security-zone\<close> without an \<^verbatim>\<open>address-book\<close> child gives
  no zone: \<open>zone_no_book_eval\<close>.)
\<close>

theorem zone_any_is_full_address_space:
  assumes "zone_from_xml IP sze = Inr z"
    and "IP (Some ''0.0.0.0/0'') = Inr (IPNet 0 0)"
    and "Some ''any'' \<notin> entry_name ` set (book_entries sze)"
  shows "addresses z (Some ''any'') = Some UNIV"
proof -
  from zone_from_xml_Inr[OF assms(1)] obtain i nm book where
    i: "IP (Some ''0.0.0.0/0'') = Inr i" and
    b: "find_elt [Child ''address-book''] sze = Some book" and
    l: "address_book_loop IP (children book)
             \<lparr>zname = nm,
              interfaces = map etext (findall [Descendant ''interfaces'', Child ''name''] sze),
              addresses = [Some ''any'' \<mapsto> IPSet [i]]\<rparr> = Inr z"
    by blast
  from b have c: "book_entries sze = children book" by (simp add: book_entries_def)
  from address_book_loop_frame[OF l] assms(3) c
  have "addresses z (Some ''any'') = Some (IPSet [i])" by simp
  moreover from i assms(2) have "i = IPNet 0 0" by simp
  ultimately show ?thesis by (simp add: ipset_eval)
qed

text \<open>The zone \<open>zone_empty_book\<close>, whose address book has no entries, and the zone
  \<open>zone_A_S\<close>, whose address book has the entries \<^verbatim>\<open>A\<close> and \<^verbatim>\<open>S\<close>.\<close>

theorem zone_any_is_full_address_space_witness:
  "zone_from_xml IP_cidr zone_empty_book =
     Inr \<lparr>zname = Some ''trust'', interfaces = [Some ''ge-0/0/1.0''],
          addresses = [Some ''any'' \<mapsto> UNIV]\<rparr>
   \<and> IP_cidr (Some ''0.0.0.0/0'') = Inr (IPNet 0 0)
   \<and> book_entries zone_empty_book = []
   \<and> addresses \<lparr>zname = Some ''trust'', interfaces = [Some ''ge-0/0/1.0''],
          addresses = [Some ''any'' \<mapsto> UNIV]\<rparr> (Some ''any'') = Some UNIV
   \<and> map entry_name (book_entries zone_A_S) = [Some ''A'', Some ''S'']
   \<and> addresses \<lparr>zname = Some ''trust'', interfaces = [Some ''ge-0/0/1.0''],
          addresses = [Some ''any'' \<mapsto> UNIV, Some ''A'' \<mapsto> ip_addrs (IPNet 0x0A000000 24),
                       Some ''S'' \<mapsto> UNIV]\<rparr> (Some ''any'') = Some UNIV"
proof -
  have e: "book_entries zone_empty_book = []"
    by (simp add: zone_empty_book_def security_zone_eval)
  have n: "map entry_name (book_entries zone_A_S) = [Some ''A'', Some ''S'']"
    by (simp add: zone_A_S_def security_zone_eval address_eval address_set_eval)
  have "addresses \<lparr>zname = Some ''trust'', interfaces = [Some ''ge-0/0/1.0''],
          addresses = [Some ''any'' \<mapsto> UNIV]\<rparr> (Some ''any'') = Some UNIV"
    by (rule zone_any_is_full_address_space[OF zone_empty_book_eval IP_cidr_0_0_0_0_0])
       (simp add: e)
  moreover
  have "entry_name ` set (book_entries zone_A_S) = set [Some ''A'', Some ''S'']"
    by (simp only: n[symmetric] set_map)
  then have "Some ''any'' \<notin> entry_name ` set (book_entries zone_A_S)"
    by simp
  then have "addresses \<lparr>zname = Some ''trust'', interfaces = [Some ''ge-0/0/1.0''],
          addresses = [Some ''any'' \<mapsto> UNIV, Some ''A'' \<mapsto> ip_addrs (IPNet 0x0A000000 24),
                       Some ''S'' \<mapsto> UNIV]\<rparr> (Some ''any'') = Some UNIV"
    by (rule zone_any_is_full_address_space[OF zone_A_S_eval IP_cidr_0_0_0_0_0])
  ultimately show ?thesis
    using e n zone_empty_book_eval IP_cidr_0_0_0_0_0 by blast
qed

text \<open>The claim as stated fails on \<open>zone_any_redefined\<close>, whose address book has an
  address named \<^verbatim>\<open>any\<close> with the prefix \<^verbatim>\<open>10.0.0.0/24\<close>: the zone is returned, and
  \<^verbatim>\<open>any\<close> is bound to that network, which is not the full address space.\<close>

theorem zone_any_is_full_counterexample:
  "zone_from_xml IP_cidr zone_any_redefined =
     Inr \<lparr>zname = Some ''trust'', interfaces = [Some ''ge-0/0/1.0''],
          addresses = [Some ''any'' \<mapsto> ip_addrs (IPNet 0x0A000000 24),
                       Some ''S'' \<mapsto> ip_addrs (IPNet 0x0A000000 24)]\<rparr>
   \<and> addresses \<lparr>zname = Some ''trust'', interfaces = [Some ''ge-0/0/1.0''],
          addresses = [Some ''any'' \<mapsto> ip_addrs (IPNet 0x0A000000 24),
                       Some ''S'' \<mapsto> ip_addrs (IPNet 0x0A000000 24)]\<rparr> (Some ''any'')
       \<noteq> Some UNIV"
  by (simp add: zone_any_redefined_eval ip_addrs_10_0_0_0_24_not_full)

text \<open>
  Claim C6. An address-set (an entry of the address book whose tag is not \<^verbatim>\<open>address\<close>)
  one of whose member names is neither \<^verbatim>\<open>any\<close> nor the name of an entry that stands
  before it in the same address book makes \<^verbatim>\<open>Zone._from_xml\<close> raise, and with it the
  extraction of the zones of any document that holds this zone: no zone with a partial
  address book is returned.
\<close>

theorem address_set_unknown_member_fails:
  assumes "book_entries sze = pre @ aset # post"
    and "tag aset \<noteq> ''address''"
    and "n \<in> set (member_names aset)"
    and "n \<notin> insert (Some ''any'') (entry_name ` set pre)"
  shows "(\<exists>err. zone_from_xml IP sze = Inl err)
       \<and> (sze \<in> set (findall [Descendant ''security-zone''] scsze) \<longrightarrow>
            (\<exists>err. parse_zones IP scsze = Inl err))"
proof -
  have f: "isl (zone_from_xml IP sze)"
  proof (cases "zone_from_xml IP sze")
    case (Inl e)
    then show ?thesis by simp
  next
    case (Inr z)
    from zone_from_xml_Inr[OF Inr] obtain i nm book where
      b: "find_elt [Child ''address-book''] sze = Some book" and
      l: "address_book_loop IP (children book)
             \<lparr>zname = nm,
              interfaces = map etext (findall [Descendant ''interfaces'', Child ''name''] sze),
              addresses = [Some ''any'' \<mapsto> IPSet [i]]\<rparr> = Inr z"
        (is "address_book_loop IP _ ?z0 = _")
      by blast
    from b assms(1) have c: "children book = pre @ aset # post" by (simp add: book_entries_def)
    from assms(4) have "n \<notin> dom (addresses ?z0) \<union> entry_name ` set pre" by simp
    with assms(2,3) have "isl (address_book_loop IP (pre @ aset # post) ?z0)"
      by (rule address_book_loop_unknown_member)
    with l c show ?thesis by simp
  qed
  then have "\<exists>err. zone_from_xml IP sze = Inl err" by (auto simp: isl_def)
  moreover
  have "sze \<in> set (findall [Descendant ''security-zone''] scsze) \<longrightarrow>
            (\<exists>err. parse_zones IP scsze = Inl err)"
  proof
    assume "sze \<in> set (findall [Descendant ''security-zone''] scsze)"
    with f have "isl (security_zone_loop IP (findall [Descendant ''security-zone''] scsze) [])"
      by (intro security_zone_loop_fails) blast
    then show "\<exists>err. parse_zones IP scsze = Inl err"
      by (auto simp: parse_zones_def isl_def)
  qed
  ultimately show ?thesis by blast
qed

text \<open>The zone \<open>zone_forward_reference\<close>: its set \<^verbatim>\<open>S\<close> refers to the address
  \<^verbatim>\<open>A\<close>, which is defined after it.\<close>

theorem address_set_unknown_member_fails_witness:
  "book_entries zone_forward_reference =
     [] @ address_set ''S'' [''A''] # [address ''A'' ''10.0.0.0/24'']
   \<and> tag (address_set ''S'' [''A'']) \<noteq> ''address''
   \<and> Some ''A'' \<in> set (member_names (address_set ''S'' [''A'']))
   \<and> Some ''A'' \<notin> insert (Some ''any'') (entry_name ` set [])
   \<and> zone_forward_reference \<in> set (findall [Descendant ''security-zone'']
        zones_doc_forward_reference)
   \<and> (\<exists>err. zone_from_xml IP_cidr zone_forward_reference = Inl err)
   \<and> (\<exists>err. parse_zones IP_cidr zones_doc_forward_reference = Inl err)"
proof -
  have h1: "book_entries zone_forward_reference =
     [] @ address_set ''S'' [''A''] # [address ''A'' ''10.0.0.0/24'']"
    by (simp add: zone_forward_reference_def security_zone_eval)
  have h2: "tag (address_set ''S'' [''A'']) \<noteq> ''address''" by (rule address_set_eval)
  have h3: "Some ''A'' \<in> set (member_names (address_set ''S'' [''A'']))"
    by (simp add: address_set_eval)
  have h4: "Some ''A'' \<notin> insert (Some ''any'') (entry_name ` set [])" by simp
  have h5: "zone_forward_reference \<in> set (findall [Descendant ''security-zone'']
        zones_doc_forward_reference)"
    by (simp add: zones_doc_forward_reference_eval)
  note inst = address_set_unknown_member_fails[OF h1 h2 h3 h4,
      where IP = IP_cidr and scsze = zones_doc_forward_reference]
  from inst h5 have "(\<exists>err. zone_from_xml IP_cidr zone_forward_reference = Inl err)
   \<and> (\<exists>err. parse_zones IP_cidr zones_doc_forward_reference = Inl err)"
    by blast
  with h1 h2 h3 h4 h5 show ?thesis by blast
qed

text \<open>
  Claim C7. An address-set entry that no later entry of the book overwrites is bound, in
  the zone returned, to the union of the IP sets that its member names are bound to at
  the moment it is resolved, that is in the mapping as it stands when the entries before
  it have been processed; all its member names are bound then. In particular the address
  \<^verbatim>\<open>A\<close> = \<^verbatim>\<open>10.0.0.0/24\<close> followed by the set \<^verbatim>\<open>S\<close> of \<^verbatim>\<open>A\<close> and \<^verbatim>\<open>any\<close>
  gives \<^verbatim>\<open>S\<close> the full address space, while \<^verbatim>\<open>A\<close> stays the network
  \<^verbatim>\<open>10.0.0.0/24\<close>, which is not the full address space. Resolution is a function of
  the document, so that resolving the same document twice gives equal sets.
\<close>

theorem address_set_is_union_of_members:
  assumes "zone_from_xml IP sze = Inr z"
    and "book_entries sze = pre @ aset # post"
    and "tag aset \<noteq> ''address''"
    and "entry_name aset \<notin> entry_name ` set post"
  shows "(\<exists>m. addresses_after IP pre = Inr m \<and> set (member_names aset) \<subseteq> dom m \<and>
            addresses z (entry_name aset) = Some (\<Union>n \<in> set (member_names aset). the (m n)))
       \<and> zone_from_xml IP_cidr zone_A_S =
           Inr \<lparr>zname = Some ''trust'', interfaces = [Some ''ge-0/0/1.0''],
                addresses = [Some ''any'' \<mapsto> UNIV,
                             Some ''A'' \<mapsto> ip_addrs (IPNet 0x0A000000 24),
                             Some ''S'' \<mapsto> UNIV]\<rparr>
       \<and> ip_addrs (IPNet 0x0A000000 24) \<noteq> UNIV"
proof -
  from zone_last_binding[OF assms(1,2,4)] obtain m v where
    m: "addresses_after IP pre = Inr m" and
    r: "resolve_entry IP m aset = Inr v" and
    a: "addresses z (entry_name aset) = Some v" by blast
  from resolve_set_Inr[OF r assms(3)] m a
  have "\<exists>m. addresses_after IP pre = Inr m \<and> set (member_names aset) \<subseteq> dom m \<and>
            addresses z (entry_name aset) = Some (\<Union>n \<in> set (member_names aset). the (m n))"
    by blast
  then show ?thesis
    using zone_A_S_eval ip_addrs_10_0_0_0_24_not_full by blast
qed

text \<open>The zone \<open>zone_A_S\<close> itself: when \<^verbatim>\<open>S\<close> is resolved the mapping binds
  \<^verbatim>\<open>any\<close> and \<^verbatim>\<open>A\<close>, and \<^verbatim>\<open>S\<close> is bound to their union.\<close>

theorem address_set_is_union_of_members_witness:
  "zone_from_xml IP_cidr zone_A_S =
     Inr \<lparr>zname = Some ''trust'', interfaces = [Some ''ge-0/0/1.0''],
          addresses = [Some ''any'' \<mapsto> UNIV, Some ''A'' \<mapsto> ip_addrs (IPNet 0x0A000000 24),
                       Some ''S'' \<mapsto> UNIV]\<rparr>
   \<and> book_entries zone_A_S =
       [address ''A'' ''10.0.0.0/24''] @ address_set ''S'' [''A'', ''any''] # []
   \<and> tag (address_set ''S'' [''A'', ''any'']) \<noteq> ''address''
   \<and> entry_name (address_set ''S'' [''A'', ''any'']) \<notin> entry_name ` set []
   \<and> addresses_after IP_cidr [address ''A'' ''10.0.0.0/24''] =
       Inr [Some ''any'' \<mapsto> UNIV, Some ''A'' \<mapsto> ip_addrs (IPNet 0x0A000000 24)]
   \<and> member_names (address_set ''S'' [''A'', ''any'']) = [Some ''A'', Some ''any'']
   \<and> addresses \<lparr>zname = Some ''trust'', interfaces = [Some ''ge-0/0/1.0''],
          addresses = [Some ''any'' \<mapsto> UNIV, Some ''A'' \<mapsto> ip_addrs (IPNet 0x0A000000 24),
                       Some ''S'' \<mapsto> UNIV]\<rparr> (entry_name (address_set ''S'' [''A'', ''any'']))
       = Some (ip_addrs (IPNet 0x0A000000 24) \<union> UNIV)"
proof -
  have h2: "book_entries zone_A_S =
       [address ''A'' ''10.0.0.0/24''] @ address_set ''S'' [''A'', ''any''] # []"
    by (simp add: zone_A_S_def security_zone_eval)
  have h3: "tag (address_set ''S'' [''A'', ''any'']) \<noteq> ''address''" by (rule address_set_eval)
  have h4: "entry_name (address_set ''S'' [''A'', ''any'']) \<notin> entry_name ` set []" by simp
  from address_set_is_union_of_members[OF zone_A_S_eval h2 h3 h4]
  obtain m where m: "addresses_after IP_cidr [address ''A'' ''10.0.0.0/24''] = Inr m"
    and u: "addresses \<lparr>zname = Some ''trust'', interfaces = [Some ''ge-0/0/1.0''],
          addresses = [Some ''any'' \<mapsto> UNIV, Some ''A'' \<mapsto> ip_addrs (IPNet 0x0A000000 24),
                       Some ''S'' \<mapsto> UNIV]\<rparr> (entry_name (address_set ''S'' [''A'', ''any'']))
       = Some (\<Union>n \<in> set (member_names (address_set ''S'' [''A'', ''any''])). the (m n))"
    by blast
  from m have "m = [Some ''any'' \<mapsto> UNIV, Some ''A'' \<mapsto> ip_addrs (IPNet 0x0A000000 24)]"
    by (simp add: addresses_after_eval)
  with u have "addresses \<lparr>zname = Some ''trust'', interfaces = [Some ''ge-0/0/1.0''],
          addresses = [Some ''any'' \<mapsto> UNIV, Some ''A'' \<mapsto> ip_addrs (IPNet 0x0A000000 24),
                       Some ''S'' \<mapsto> UNIV]\<rparr> (entry_name (address_set ''S'' [''A'', ''any'']))
       = Some (ip_addrs (IPNet 0x0A000000 24) \<union> UNIV)"
    by (simp add: address_set_eval)
  with h2 h3 h4 show ?thesis
    using zone_A_S_eval addresses_after_eval(2) address_set_eval(4) by blast
qed

text \<open>
  Claim C10. The binding of a name in the zone returned is the IP set that the last
  address-book entry of that name resolved to, whatever the name was bound to before:
  a later entry overwrites an earlier one of the same name, and the built-in binding of
  \<^verbatim>\<open>any\<close> as well. In particular, in \<open>zone_any_redefined\<close> the address \<^verbatim>\<open>any\<close> =
  \<^verbatim>\<open>10.0.0.0/24\<close> replaces the full address space, and the set \<^verbatim>\<open>S\<close> of \<^verbatim>\<open>any\<close>
  that follows it is bound to the network \<^verbatim>\<open>10.0.0.0/24\<close>.
\<close>

theorem later_entry_overwrites:
  assumes "zone_from_xml IP sze = Inr z"
    and "book_entries sze = pre @ e # post"
    and "entry_name e \<notin> entry_name ` set post"
  shows "(\<exists>m v. addresses_after IP pre = Inr m \<and> resolve_entry IP m e = Inr v \<and>
            addresses z (entry_name e) = Some v)
       \<and> zone_from_xml IP_cidr zone_any_redefined =
           Inr \<lparr>zname = Some ''trust'', interfaces = [Some ''ge-0/0/1.0''],
                addresses = [Some ''any'' \<mapsto> ip_addrs (IPNet 0x0A000000 24),
                             Some ''S'' \<mapsto> ip_addrs (IPNet 0x0A000000 24)]\<rparr>
       \<and> ip_addrs (IPNet 0x0A000000 24) \<noteq> UNIV"
  using zone_last_binding[OF assms] zone_any_redefined_eval ip_addrs_10_0_0_0_24_not_full
  by blast

text \<open>The zone \<open>zone_twice\<close>: two addresses named \<^verbatim>\<open>A\<close>, and \<^verbatim>\<open>A\<close> is bound to
  the network of the second.\<close>

theorem later_entry_overwrites_witness:
  "zone_from_xml IP_cidr zone_twice =
     Inr \<lparr>zname = Some ''trust'', interfaces = [Some ''ge-0/0/1.0''],
          addresses = [Some ''any'' \<mapsto> UNIV, Some ''A'' \<mapsto> ip_addrs (IPNet 0x0A010100 24)]\<rparr>
   \<and> book_entries zone_twice =
       [address ''A'' ''10.0.0.0/24''] @ address ''A'' ''10.1.1.0/24'' # []
   \<and> entry_name (address ''A'' ''10.1.1.0/24'') \<notin> entry_name ` set []
   \<and> addresses_after IP_cidr [address ''A'' ''10.0.0.0/24''] =
       Inr [Some ''any'' \<mapsto> UNIV, Some ''A'' \<mapsto> ip_addrs (IPNet 0x0A000000 24)]
   \<and> resolve_entry IP_cidr
         [Some ''any'' \<mapsto> UNIV, Some ''A'' \<mapsto> ip_addrs (IPNet 0x0A000000 24)]
         (address ''A'' ''10.1.1.0/24'') = Inr (ip_addrs (IPNet 0x0A010100 24))
   \<and> addresses \<lparr>zname = Some ''trust'', interfaces = [Some ''ge-0/0/1.0''],
          addresses = [Some ''any'' \<mapsto> UNIV, Some ''A'' \<mapsto> ip_addrs (IPNet 0x0A010100 24)]\<rparr>
        (entry_name (address ''A'' ''10.1.1.0/24'')) = Some (ip_addrs (IPNet 0x0A010100 24))"
proof -
  have h2: "book_entries zone_twice =
       [address ''A'' ''10.0.0.0/24''] @ address ''A'' ''10.1.1.0/24'' # []"
    by (simp add: zone_twice_def security_zone_eval)
  have h3: "entry_name (address ''A'' ''10.1.1.0/24'') \<notin> entry_name ` set []" by simp
  have r: "resolve_entry IP_cidr m (address ''A'' ''10.1.1.0/24'') =
             Inr (ip_addrs (IPNet 0x0A010100 24))" for m
    by (simp add: address_eval IP_cidr_eval IPSet_single)
  from later_entry_overwrites[OF zone_twice_eval h2 h3]
  obtain m v where "resolve_entry IP_cidr m (address ''A'' ''10.1.1.0/24'') = Inr v"
    and "addresses \<lparr>zname = Some ''trust'', interfaces = [Some ''ge-0/0/1.0''],
          addresses = [Some ''any'' \<mapsto> UNIV, Some ''A'' \<mapsto> ip_addrs (IPNet 0x0A010100 24)]\<rparr>
        (entry_name (address ''A'' ''10.1.1.0/24'')) = Some v"
    by blast
  with r have "addresses \<lparr>zname = Some ''trust'', interfaces = [Some ''ge-0/0/1.0''],
          addresses = [Some ''any'' \<mapsto> UNIV, Some ''A'' \<mapsto> ip_addrs (IPNet 0x0A010100 24)]\<rparr>
        (entry_name (address ''A'' ''10.1.1.0/24'')) = Some (ip_addrs (IPNet 0x0A010100 24))"
    by simp
  with h2 h3 r show ?thesis
    using zone_twice_eval addresses_after_eval(2) by blast
qed

end
